theory Spec2Isabelle
  imports Complex_Main
begin

text \<open>
  A model of the scan path of the shoppable-vision application: the page that plays a video
  and scans a frame for products (\<^verbatim>\<open>VideoPlayer\<close>: \<^verbatim>\<open>extractYoutubeId\<close>,
  \<^verbatim>\<open>captureFrame\<close>, \<^verbatim>\<open>scanProducts\<close>, the overlay positions) and the
  \<^verbatim>\<open>scan-products\<close> function it calls (status mapping, defensive parsing, product
  validation). Functions of the source keep their names; errors are values of a sum type;
  the component state is a record that each event of the page takes to the next state.
\<close>

section \<open>JavaScript values\<close>

text \<open>
  A JavaScript string is a sequence of UTF-16 code units. A code unit is held as a natural
  number (below 65536), so that unpaired surrogates, the Unicode white space that
  \<^verbatim>\<open>trim\<close> removes and the line terminators that \<^verbatim>\<open>.\<close> refuses in a
  regular expression are all values of the model. \<open>js\<close> turns an ASCII literal into its
  code units.
\<close>

type_synonym jsstring = "nat list"

definition js :: "string \<Rightarrow> jsstring" where
  "js s = map of_char s"

text \<open>
  A JavaScript number is a double. Only its class and its exact value matter here (no
  arithmetic is done on parsed numbers): \<open>Finite q\<close> is the double whose value is \<open>q\<close>,
  both zeros being \<open>Finite 0\<close>.
\<close>

datatype jsnum = NaN | PosInfinity | NegInfinity | Finite rat

text \<open>
  The values the code handles: \<^verbatim>\<open>undefined\<close> and what \<^verbatim>\<open>JSON.parse\<close> builds. An
  object is the list of its own properties, as \<^verbatim>\<open>JSON.parse\<close> creates them.
\<close>

datatype jsval =
    JUndefined
  | JNull
  | JBool bool
  | JNum jsnum
  | JStr jsstring
  | JArr "jsval list"
  | JObj "(jsstring \<times> jsval) list"

datatype js_error = SyntaxError | TypeError | URIError | Error jsstring

text \<open>
  \<^verbatim>\<open>v.k\<close> for a value \<open>v\<close> that is neither \<^verbatim>\<open>null\<close> nor \<^verbatim>\<open>undefined\<close> and a
  property name \<open>k\<close> that no prototype defines (\<^verbatim>\<open>name\<close>, \<^verbatim>\<open>category\<close>,
  \<^verbatim>\<open>confidence\<close>, \<^verbatim>\<open>choices\<close>, \<^verbatim>\<open>message\<close>, \<^verbatim>\<open>content\<close>,
  \<^verbatim>\<open>imageData\<close>): the own property of an object, \<^verbatim>\<open>undefined\<close> otherwise.
  \<open>inOp k v\<close> is \<^verbatim>\<open>k in v\<close> for such a name and a value whose \<^verbatim>\<open>typeof\<close> is
  \<^verbatim>\<open>'object'\<close>.
\<close>

fun getProp :: "jsval \<Rightarrow> jsstring \<Rightarrow> jsval" where
  "getProp (JObj kvs) k = (case map_of kvs k of None \<Rightarrow> JUndefined | Some v \<Rightarrow> v)"
| "getProp _ k = JUndefined"

fun inOp :: "jsstring \<Rightarrow> jsval \<Rightarrow> bool" where
  "inOp k (JObj kvs) = (map_of kvs k \<noteq> None)"
| "inOp k _ = False"

definition nullish :: "jsval \<Rightarrow> bool" where
  "nullish v \<longleftrightarrow> v = JUndefined \<or> v = JNull"

definition typeof_object :: "jsval \<Rightarrow> bool" where
  "typeof_object v = (case v of JNull \<Rightarrow> True | JArr _ \<Rightarrow> True | JObj _ \<Rightarrow> True | _ \<Rightarrow> False)"

text \<open>ToBoolean, as \<^verbatim>\<open>||\<close> and \<^verbatim>\<open>!\<close> apply it.\<close>

fun truthy :: "jsval \<Rightarrow> bool" where
  "truthy JUndefined = False"
| "truthy JNull = False"
| "truthy (JBool b) = b"
| "truthy (JNum n) = (n \<noteq> NaN \<and> n \<noteq> Finite 0)"
| "truthy (JStr s) = (s \<noteq> [])"
| "truthy (JArr _) = True"
| "truthy (JObj _) = True"

text \<open>The decimal digits of a non-negative integer, as a template literal prints it.\<close>

fun decimal :: "nat \<Rightarrow> jsstring" where
  "decimal n = (if n < 10 then [48 + n] else decimal (n div 10) @ [48 + n mod 10])"

declare decimal.simps [simp del]

section \<open>The product record of the scan-products function\<close>

text \<open>
  \<^verbatim>\<open>interface Product { name: string; category: string; confidence: number; searchUrl?: string }\<close>
  The interface is not checked when the function runs: \<open>name\<close>, \<open>category\<close> and
  \<open>confidence\<close> hold whatever value the parsed entry has.
\<close>

record product =
  name :: jsval
  category :: jsval
  confidence :: jsval
  searchUrl :: jsstring

section \<open>Double arithmetic\<close>

text \<open>
  The coordinates of an overlay are JavaScript numbers, computed with \<^verbatim>\<open>+\<close>,
  \<^verbatim>\<open>*\<close> and \<^verbatim>\<open>/\<close> on doubles: each operation returns the double nearest to the exact
  result, ties going to the even significand. A finite double is held as the real number
  it denotes. \<open>binade x\<close> is the exponent of the binade of \<open>x\<close> (never below \<open>- 1022\<close>,
  where the subnormal numbers begin), \<open>ulp x\<close> the distance between neighbouring doubles
  there (53 significant bits), and \<open>toDouble x\<close> the double nearest to \<open>x\<close>. Overflow to
  \<^verbatim>\<open>Infinity\<close> is outside the model: no value computed here reaches \<open>2 ^ 1024\<close>, the
  indices of an array being below \<open>2 ^ 32\<close>.
\<close>

definition pow2 :: "int \<Rightarrow> real" where
  "pow2 k = (if 0 \<le> k then 2 ^ nat k else 1 / 2 ^ nat (- k))"

definition binade :: "real \<Rightarrow> int" where
  "binade x = max \<lfloor>log 2 \<bar>x\<bar>\<rfloor> (- 1022)"

definition ulp :: "real \<Rightarrow> real" where
  "ulp x = pow2 (binade x - 52)"

definition roundHalfEven :: "real \<Rightarrow> int" where
  "roundHalfEven q =
     (if q - of_int \<lfloor>q\<rfloor> < 1 / 2 then \<lfloor>q\<rfloor>
      else if 1 / 2 < q - of_int \<lfloor>q\<rfloor> then \<lfloor>q\<rfloor> + 1
      else if even \<lfloor>q\<rfloor> then \<lfloor>q\<rfloor> else \<lfloor>q\<rfloor> + 1)"

definition toDouble :: "real \<Rightarrow> real" where
  "toDouble x = (if x = 0 then 0 else of_int (roundHalfEven (x / ulp x)) * ulp x)"

definition isDouble :: "real \<Rightarrow> bool" where
  "isDouble x \<longleftrightarrow> toDouble x = x"

text \<open>The operators \<^verbatim>\<open>+\<close>, \<^verbatim>\<open>*\<close> and \<^verbatim>\<open>/\<close> of JavaScript on finite doubles.\<close>

definition fadd :: "real \<Rightarrow> real \<Rightarrow> real" where
  "fadd a b = toDouble (a + b)"

definition fmul :: "real \<Rightarrow> real \<Rightarrow> real" where
  "fmul a b = toDouble (a * b)"

definition fdiv :: "real \<Rightarrow> real \<Rightarrow> real" where
  "fdiv a b = toDouble (a / b)"

section \<open>Overlay positions (VideoPlayer, scanProducts)\<close>

text \<open>
  \<^verbatim>\<open>
  const productsWithPositions = data.products.map((product, index) => ({
    ...product,
    id: `${Date.now()}-${index}`,
    position: {
      x: 10 + (index % 3) * 30 + Math.random() * 10,
      y: 10 + Math.floor(index / 3) * 25 + Math.random() * 10,
    },
  }));
  \<close>
  \<open>clock k\<close> is what the \<open>k\<close>-th call of \<^verbatim>\<open>Date.now()\<close> returns and \<open>random k\<close> what
  the \<open>k\<close>-th call of \<^verbatim>\<open>Math.random()\<close> returns, counted from the start of the map:
  the entry at \<open>index\<close> makes the calls \<open>2 * index\<close> (for \<open>x\<close>) and \<open>2 * index + 1\<close>
  (for \<open>y\<close>). \<open>index\<close> is an integer, so \<^verbatim>\<open>index % 3\<close> is exact; every other
  operation rounds, in the order in which JavaScript evaluates the expression:
  \<^verbatim>\<open>(10 + ((index % 3) * 30)) + (Math.random() * 10)\<close>.
\<close>

record scanned_product =
  product :: product
  product_id :: jsstring
  position_x :: real
  position_y :: real

definition jitter_x :: "(nat \<Rightarrow> real) \<Rightarrow> nat \<Rightarrow> real" where
  "jitter_x random index = fmul (random (2 * index)) 10"

definition jitter_y :: "(nat \<Rightarrow> real) \<Rightarrow> nat \<Rightarrow> real" where
  "jitter_y random index = fmul (random (2 * index + 1)) 10"

definition withPosition :: "(nat \<Rightarrow> nat) \<Rightarrow> (nat \<Rightarrow> real) \<Rightarrow> nat \<times> product \<Rightarrow> scanned_product" where
  "withPosition clock random ip =
     (case ip of (index, p) \<Rightarrow>
        \<lparr> product = p,
          product_id = decimal (clock index) @ js ''-'' @ decimal index,
          position_x = fadd (fadd 10 (fmul (real (index mod 3)) 30)) (jitter_x random index),
          position_y = fadd (fadd 10 (fmul (of_int \<lfloor>fdiv (real index) 3\<rfloor>) 25))
                            (jitter_y random index) \<rparr>)"

definition productsWithPositions ::
  "(nat \<Rightarrow> nat) \<Rightarrow> (nat \<Rightarrow> real) \<Rightarrow> product list \<Rightarrow> scanned_product list" where
  "productsWithPositions clock random ps = map (withPosition clock random) (enumerate 0 ps)"

text \<open>\<^verbatim>\<open>Math.random()\<close> returns a double in \<open>[0, 1)\<close>.\<close>

definition unit_interval :: "(nat \<Rightarrow> real) \<Rightarrow> bool" where
  "unit_interval random \<longleftrightarrow> (\<forall>k. 0 \<le> random k \<and> random k < 1 \<and> isDouble (random k))"

text \<open>A random source whose every draw is \<open>1 - 2 ^ - 52\<close>, a double just below 1.\<close>

definition draws_below_one :: "nat \<Rightarrow> real" where
  "draws_below_one k = 1 - 1 / 2 ^ 52"

definition sample_product :: product where
  "sample_product =
     \<lparr> name = JStr (js ''Navy Blue Blazer''), category = JStr (js ''Fashion''),
       confidence = JNum (Finite (23 / 25)),
       searchUrl = js ''https://www.amazon.com/s?k=Navy%20Blue%20Blazer'' \<rparr>"

section \<open>The scan-products function (supabase/functions/scan-products/index.ts)\<close>

subsection \<open>What the platform provides\<close>

text \<open>
  Three services of the JavaScript engine are parameters of the model:
  \<^verbatim>\<open>JSON.parse\<close> (\<open>None\<close> when it throws \<^verbatim>\<open>SyntaxError\<close>), the conversion to
  string of a value that is not a string, and the message text of the errors the engine
  itself creates.
\<close>

record platform =
  JSON_parse :: "jsstring \<Rightarrow> jsval option"
  ToString_other :: "jsval \<Rightarrow> js_error + jsstring"
  engine_message :: "js_error \<Rightarrow> jsstring"

definition ToString :: "platform \<Rightarrow> jsval \<Rightarrow> js_error + jsstring" where
  "ToString plat v = (case v of JStr s \<Rightarrow> Inr s | _ \<Rightarrow> ToString_other plat v)"

text \<open>\<^verbatim>\<open>error instanceof Error ? error.message : "Unknown error"\<close>; every error of the model is an \<^verbatim>\<open>Error\<close>.\<close>

definition error_message :: "platform \<Rightarrow> js_error \<Rightarrow> jsstring" where
  "error_message plat e = (case e of Error m \<Rightarrow> m | _ \<Rightarrow> engine_message plat e)"

subsection \<open>String operations\<close>

text \<open>White space and line terminators, which \<^verbatim>\<open>trim\<close> removes at both ends.\<close>

definition jsWhiteSpace :: "nat \<Rightarrow> bool" where
  "jsWhiteSpace c \<longleftrightarrow>
     c \<in> {0x09, 0x0A, 0x0B, 0x0C, 0x0D, 0x20, 0xA0, 0x1680, 0x2028, 0x2029, 0x202F, 0x205F,
          0x3000, 0xFEFF}
     \<or> (0x2000 \<le> c \<and> c \<le> 0x200A)"

definition trim :: "jsstring \<Rightarrow> jsstring" where
  "trim s = rev (dropWhile jsWhiteSpace (rev (dropWhile jsWhiteSpace s)))"

definition startsWith :: "jsstring \<Rightarrow> jsstring \<Rightarrow> bool" where
  "startsWith s p \<longleftrightarrow> take (length p) s = p"

definition endsWith :: "jsstring \<Rightarrow> jsstring \<Rightarrow> bool" where
  "endsWith s p \<longleftrightarrow> length p \<le> length s \<and> drop (length s - length p) s = p"

text \<open>
  \<^verbatim>\<open>encodeURIComponent\<close>: the letters, the digits and \<^verbatim>\<open>- _ . ! ~ * ' ( )\<close> stay; any
  other code point becomes the \<^verbatim>\<open>%XX\<close> escapes of its UTF-8 bytes; an unpaired
  surrogate throws \<^verbatim>\<open>URIError\<close>.
\<close>

definition uriUnescaped :: "nat \<Rightarrow> bool" where
  "uriUnescaped c \<longleftrightarrow>
     (65 \<le> c \<and> c \<le> 90) \<or> (97 \<le> c \<and> c \<le> 122) \<or> (48 \<le> c \<and> c \<le> 57)
     \<or> c \<in> {0x2D, 0x5F, 0x2E, 0x21, 0x7E, 0x2A, 0x27, 0x28, 0x29}"

definition hexDigit :: "nat \<Rightarrow> nat" where
  "hexDigit d = (if d < 10 then 48 + d else 55 + d)"

definition percent :: "nat \<Rightarrow> jsstring" where
  "percent b = [37, hexDigit (b div 16), hexDigit (b mod 16)]"

definition utf8 :: "nat \<Rightarrow> nat list" where
  "utf8 cp =
     (if cp < 0x80 then [cp]
      else if cp < 0x800 then [0xC0 + cp div 0x40, 0x80 + cp mod 0x40]
      else if cp < 0x10000 then
        [0xE0 + cp div 0x1000, 0x80 + (cp div 0x40) mod 0x40, 0x80 + cp mod 0x40]
      else
        [0xF0 + cp div 0x40000, 0x80 + (cp div 0x1000) mod 0x40,
         0x80 + (cp div 0x40) mod 0x40, 0x80 + cp mod 0x40])"

definition escape :: "nat \<Rightarrow> jsstring" where
  "escape cp = concat (map percent (utf8 cp))"

definition prepend :: "jsstring \<Rightarrow> js_error + jsstring \<Rightarrow> js_error + jsstring" where
  "prepend p r = (case r of Inl e \<Rightarrow> Inl e | Inr s \<Rightarrow> Inr (p @ s))"

fun encodeURIComponent :: "jsstring \<Rightarrow> js_error + jsstring" where
  "encodeURIComponent [] = Inr []"
| "encodeURIComponent (c # cs) =
     (if uriUnescaped c then prepend [c] (encodeURIComponent cs)
      else if c < 0xD800 \<or> 0xDFFF < c then prepend (escape c) (encodeURIComponent cs)
      else if 0xDC00 \<le> c then Inl URIError
      else (case cs of
              [] \<Rightarrow> Inl URIError
            | d # ds \<Rightarrow>
                if 0xDC00 \<le> d \<and> d \<le> 0xDFFF
                then prepend (escape ((c - 0xD800) * 0x400 + (d - 0xDC00) + 0x10000))
                       (encodeURIComponent ds)
                else Inl URIError))"

subsection \<open>Stripping the code fence\<close>

text \<open>
  \<^verbatim>\<open>
  let cleanContent = content.trim();
  if (cleanContent.startsWith("```json")) {
    cleanContent = cleanContent.replace(/^```json\n?/, "").replace(/\n?```$/, "");
  } else if (cleanContent.startsWith("```")) {
    cleanContent = cleanContent.replace(/^```\n?/, "").replace(/\n?```$/, "");
  }
  \<close>
  \<open>removeFenceStart fence\<close> is the replacement of \<^verbatim>\<open>/^fence\n?/\<close>; \<open>removeFenceEnd\<close> is
  the replacement of \<^verbatim>\<open>/\n?```$/\<close>, whose leftmost match takes the line feed before
  the closing fence when there is one.
\<close>

definition removeFenceStart :: "jsstring \<Rightarrow> jsstring \<Rightarrow> jsstring" where
  "removeFenceStart fence s =
     (if startsWith s fence
      then (let r = drop (length fence) s in if startsWith r [0x0A] then drop 1 r else r)
      else s)"

definition removeFenceEnd :: "jsstring \<Rightarrow> jsstring" where
  "removeFenceEnd s =
     (if endsWith s (0x0A # js ''```'') then take (length s - 4) s
      else if endsWith s (js ''```'') then take (length s - 3) s
      else s)"

definition cleanContent :: "jsstring \<Rightarrow> jsstring" where
  "cleanContent content =
     (let c = trim content in
      if startsWith c (js ''```json'') then removeFenceEnd (removeFenceStart (js ''```json'') c)
      else if startsWith c (js ''```'') then removeFenceEnd (removeFenceStart (js ''```'') c)
      else c)"

subsection \<open>Validating and enhancing the products\<close>

text \<open>
  \<^verbatim>\<open>
  products = parsed
    .filter((p: unknown): p is { name: string; category: string; confidence?: number } =>
      typeof p === 'object' && p !== null && 'name' in p && 'category' in p)
    .map((p) => ({
      name: p.name,
      category: p.category,
      confidence: p.confidence || 0.8,
      searchUrl: `https://www.amazon.com/s?k=${encodeURIComponent(p.name)}`,
    }));
  \<close>
  The number literal \<^verbatim>\<open>0.8\<close> denotes the double \<open>3602879701896397 / 2 ^ 52\<close>.
\<close>

definition isCandidate :: "jsval \<Rightarrow> bool" where
  "isCandidate p \<longleftrightarrow>
     typeof_object p \<and> p \<noteq> JNull \<and> inOp (js ''name'') p \<and> inOp (js ''category'') p"

definition number_0_8 :: jsval where
  "number_0_8 = JNum (Finite (3602879701896397 / 2 ^ 52))"

definition orElse :: "jsval \<Rightarrow> jsval \<Rightarrow> jsval" where
  "orElse a b = (if truthy a then a else b)"

definition searchUrlTemplate :: jsstring where
  "searchUrlTemplate = js ''https://www.amazon.com/s?k=''"

definition toProduct :: "platform \<Rightarrow> jsval \<Rightarrow> js_error + product" where
  "toProduct plat p =
     (case ToString plat (getProp p (js ''name'')) of
        Inl e \<Rightarrow> Inl e
      | Inr text \<Rightarrow>
          (case encodeURIComponent text of
             Inl e \<Rightarrow> Inl e
           | Inr encoded \<Rightarrow>
               Inr \<lparr> name = getProp p (js ''name''),
                     category = getProp p (js ''category''),
                     confidence = orElse (getProp p (js ''confidence'')) number_0_8,
                     searchUrl = searchUrlTemplate @ encoded \<rparr>))"

text \<open>\<^verbatim>\<open>map\<close> with a callback that may throw: the first error ends the map.\<close>

fun mapThrowing :: "('a \<Rightarrow> js_error + 'b) \<Rightarrow> 'a list \<Rightarrow> js_error + 'b list" where
  "mapThrowing f [] = Inr []"
| "mapThrowing f (x # xs) =
     (case f x of
        Inl e \<Rightarrow> Inl e
      | Inr y \<Rightarrow> (case mapThrowing f xs of Inl e \<Rightarrow> Inl e | Inr ys \<Rightarrow> Inr (y # ys)))"

definition enhance :: "platform \<Rightarrow> jsval list \<Rightarrow> js_error + product list" where
  "enhance plat parsed = mapThrowing (toProduct plat) (filter isCandidate parsed)"

text \<open>
  The body of the inner \<^verbatim>\<open>try\<close>, with its \<^verbatim>\<open>catch\<close>: \<^verbatim>\<open>content.trim()\<close> throws
  \<^verbatim>\<open>TypeError\<close> when \<open>content\<close> is not a string, \<^verbatim>\<open>JSON.parse\<close> may throw, the
  map may throw; each time \<^verbatim>\<open>products = []\<close>.
\<close>

definition parseProducts :: "platform \<Rightarrow> jsval \<Rightarrow> product list" where
  "parseProducts plat content =
     (case content of
        JStr s \<Rightarrow>
          (case JSON_parse plat (cleanContent s) of
             None \<Rightarrow> []
           | Some parsed \<Rightarrow>
               (case parsed of
                  JArr entries \<Rightarrow>
                    (case enhance plat entries of Inl e \<Rightarrow> [] | Inr products \<Rightarrow> products)
                | _ \<Rightarrow> []))
      | _ \<Rightarrow> [])"

subsection \<open>The request handler\<close>

text \<open>
  \<open>json_body\<close> is what \<^verbatim>\<open>req.json()\<close> resolves to, or the error it rejects with. The
  gateway answers the \<open>k\<close>-th \<^verbatim>\<open>fetch\<close> of one handler run with \<open>gateway k\<close>: either the
  \<^verbatim>\<open>fetch\<close> rejects, or a reply arrives, held with its status and its whole body text.
  The handler returns its HTTP response and the number of \<^verbatim>\<open>fetch\<close> calls it made.
\<close>

record request =
  http_method :: jsstring
  json_body :: "js_error + jsval"

record ai_response =
  ai_status :: nat
  ai_body :: jsstring

datatype fetch_result = FetchRejected js_error | FetchResolved ai_response

datatype response_body = NoBody | ErrorBody jsstring | ProductsBody "product list"

record response =
  status :: nat
  body :: response_body

record handled =
  reply :: response
  fetches :: nat

definition ok :: "nat \<Rightarrow> bool" where
  "ok st \<longleftrightarrow> 200 \<le> st \<and> st \<le> 299"

definition rateLimitMessage :: jsstring where
  "rateLimitMessage = js ''Rate limit exceeded. Please try again in a moment.''"

definition usageLimitMessage :: jsstring where
  "usageLimitMessage = js ''AI usage limit reached. Please upgrade your plan.''"

definition aiApiErrorMessage :: "nat \<Rightarrow> jsstring" where
  "aiApiErrorMessage st = js ''AI API error: '' @ decimal st"

text \<open>The outer \<^verbatim>\<open>catch\<close>: status 500 with the message of the error.\<close>

definition caught :: "platform \<Rightarrow> js_error \<Rightarrow> response" where
  "caught plat e = \<lparr> status = 500, body = ErrorBody (error_message plat e) \<rparr>"

fun index0 :: "jsval \<Rightarrow> jsval" where
  "index0 (JArr xs) = (case xs of [] \<Rightarrow> JUndefined | x # _ \<Rightarrow> x)"
| "index0 (JStr s) = (case s of [] \<Rightarrow> JUndefined | c # _ \<Rightarrow> JStr [c])"
| "index0 (JObj kvs) = getProp (JObj kvs) (js ''0'')"
| "index0 _ = JUndefined"

text \<open>\<^verbatim>\<open>aiResponse.choices?.[0]?.message?.content || "[]"\<close>\<close>

definition contentOf :: "jsval \<Rightarrow> js_error + jsval" where
  "contentOf aiResponse =
     (if nullish aiResponse then Inl TypeError
      else
        (let choices = getProp aiResponse (js ''choices'');
             first = (if nullish choices then JUndefined else index0 choices);
             message = (if nullish first then JUndefined else getProp first (js ''message''));
             content = (if nullish message then JUndefined else getProp message (js ''content''))
         in Inr (orElse content (JStr (js ''[]'')))))"

definition onReply :: "platform \<Rightarrow> ai_response \<Rightarrow> response" where
  "onReply plat r =
     (if \<not> ok (ai_status r) then
        (if ai_status r = 429 then \<lparr> status = 429, body = ErrorBody rateLimitMessage \<rparr>
         else if ai_status r = 402 then \<lparr> status = 402, body = ErrorBody usageLimitMessage \<rparr>
         else caught plat (Error (aiApiErrorMessage (ai_status r))))
      else
        (case JSON_parse plat (ai_body r) of
           None \<Rightarrow> caught plat SyntaxError
         | Some aiResponse \<Rightarrow>
             (case contentOf aiResponse of
                Inl e \<Rightarrow> caught plat e
              | Inr content \<Rightarrow>
                  \<lparr> status = 200, body = ProductsBody (parseProducts plat content) \<rparr>)))"

definition serve ::
  "platform \<Rightarrow> jsstring option \<Rightarrow> (nat \<Rightarrow> fetch_result) \<Rightarrow> request \<Rightarrow> handled" where
  "serve plat LOVABLE_API_KEY gateway req =
     (if http_method req = js ''OPTIONS'' then
        \<lparr> reply = \<lparr> status = 200, body = NoBody \<rparr>, fetches = 0 \<rparr>
      else
        (case json_body req of
           Inl e \<Rightarrow> \<lparr> reply = caught plat e, fetches = 0 \<rparr>
         | Inr parsed \<Rightarrow>
             if nullish parsed then \<lparr> reply = caught plat TypeError, fetches = 0 \<rparr>
             else if \<not> truthy (getProp parsed (js ''imageData'')) then
               \<lparr> reply = \<lparr> status = 400, body = ErrorBody (js ''No image data provided'') \<rparr>,
                 fetches = 0 \<rparr>
             else if LOVABLE_API_KEY = None \<or> LOVABLE_API_KEY = Some [] then
               \<lparr> reply = \<lparr> status = 500, body = ErrorBody (js ''AI service not configured'') \<rparr>,
                 fetches = 0 \<rparr>
             else
               (case gateway 0 of
                  FetchRejected e \<Rightarrow> \<lparr> reply = caught plat e, fetches = 1 \<rparr>
                | FetchResolved r \<Rightarrow> \<lparr> reply = onReply plat r, fetches = 1 \<rparr>)))"

section \<open>The video player page (VideoPlayer)\<close>

subsection \<open>extractYoutubeId\<close>

text \<open>
  \<^verbatim>\<open>
  const patterns = [
    /(?:youtube\.com\/watch\?v=)([a-zA-Z0-9_-]{11})/,
    /(?:youtube\.com\/watch\?.*v=)([a-zA-Z0-9_-]{11})/,
    /(?:youtu\.be\/)([a-zA-Z0-9_-]{11})/,
    /(?:youtube\.com\/embed\/)([a-zA-Z0-9_-]{11})/,
    /(?:youtube\.com\/v\/)([a-zA-Z0-9_-]{11})/,
    /(?:youtube\.com\/shorts\/)([a-zA-Z0-9_-]{11})/,
    /(?:youtube\.com\/live\/)([a-zA-Z0-9_-]{11})/,
  ];
  for (const pattern of patterns) {
    const match = url.match(pattern);
    if (match && match[1]) { return match[1]; }
  }
  return null;
  \<close>
  A pattern is a matcher: given the text at a start position, it returns the capture group
  of the match that the backtracking matcher finds there, if any. \<open>capture11\<close> is the group
  \<^verbatim>\<open>([a-zA-Z0-9_-]{11})\<close>, \<open>literalThenId\<close> a literal followed by the group,
  \<open>greedyDotStar\<close> the greedy \<^verbatim>\<open>.*\<close> (longest run first, never across a line
  terminator) followed by a continuation, and \<open>search\<close> tries the start positions from
  left to right, as \<^verbatim>\<open>String.prototype.match\<close> does for a pattern without flags.
\<close>

definition idChar :: "nat \<Rightarrow> bool" where
  "idChar c \<longleftrightarrow>
     (97 \<le> c \<and> c \<le> 122) \<or> (65 \<le> c \<and> c \<le> 90) \<or> (48 \<le> c \<and> c \<le> 57) \<or> c = 0x5F \<or> c = 0x2D"

definition capture11 :: "jsstring \<Rightarrow> jsstring option" where
  "capture11 s = (if 11 \<le> length s \<and> list_all idChar (take 11 s) then Some (take 11 s) else None)"

definition literalThenId :: "jsstring \<Rightarrow> jsstring \<Rightarrow> jsstring option" where
  "literalThenId lit s = (if startsWith s lit then capture11 (drop (length lit) s) else None)"

definition lineTerminator :: "nat \<Rightarrow> bool" where
  "lineTerminator c \<longleftrightarrow> c = 0x0A \<or> c = 0x0D \<or> c = 0x2028 \<or> c = 0x2029"

fun greedyDotStar :: "(jsstring \<Rightarrow> jsstring option) \<Rightarrow> jsstring \<Rightarrow> jsstring option" where
  "greedyDotStar k [] = k []"
| "greedyDotStar k (c # cs) =
     (if lineTerminator c then k (c # cs)
      else (case greedyDotStar k cs of Some m \<Rightarrow> Some m | None \<Rightarrow> k (c # cs)))"

definition watchWithParams :: "jsstring \<Rightarrow> jsstring option" where
  "watchWithParams s =
     (if startsWith s (js ''youtube.com/watch?'')
      then greedyDotStar (literalThenId (js ''v='')) (drop (length (js ''youtube.com/watch?'')) s)
      else None)"

fun search :: "(jsstring \<Rightarrow> jsstring option) \<Rightarrow> jsstring \<Rightarrow> jsstring option" where
  "search p [] = p []"
| "search p (c # cs) = (case p (c # cs) of Some m \<Rightarrow> Some m | None \<Rightarrow> search p cs)"

definition patterns :: "(jsstring \<Rightarrow> jsstring option) list" where
  "patterns =
     [ literalThenId (js ''youtube.com/watch?v=''),
       watchWithParams,
       literalThenId (js ''youtu.be/''),
       literalThenId (js ''youtube.com/embed/''),
       literalThenId (js ''youtube.com/v/''),
       literalThenId (js ''youtube.com/shorts/''),
       literalThenId (js ''youtube.com/live/'') ]"

fun firstMatch :: "(jsstring \<Rightarrow> jsstring option) list \<Rightarrow> jsstring \<Rightarrow> jsstring option" where
  "firstMatch [] url = None"
| "firstMatch (pattern # rest) url =
     (case search pattern url of
        Some m \<Rightarrow> (if m \<noteq> [] then Some m else firstMatch rest url)
      | None \<Rightarrow> firstMatch rest url)"

definition extractYoutubeId :: "jsstring \<Rightarrow> jsstring option" where
  "extractYoutubeId url = firstMatch patterns url"

definition getYoutubeThumbnail :: "jsstring \<Rightarrow> jsstring" where
  "getYoutubeThumbnail videoId = js ''https://img.youtube.com/vi/'' @ videoId @ js ''/maxresdefault.jpg''"

subsection \<open>The state of the page\<close>

text \<open>
  The component's state variables and refs, the toasts it has shown, and the
  \<^verbatim>\<open>supabase.functions.invoke\<close> calls that have been made and have not resolved yet
  (\<open>inFlight\<close>, oldest first). A state variable holds its value after every update made
  so far (\<^verbatim>\<open>setIsScanning(true)\<close> only schedules the update for the next render).
  \<open>rendered\<close> holds what the last committed render read: the route parameter
  \<^verbatim>\<open>id\<close> and the state variables \<^verbatim>\<open>video\<close>, \<^verbatim>\<open>loading\<close>,
  \<^verbatim>\<open>isPlaying\<close> and \<^verbatim>\<open>isScanning\<close>. The attributes of the buttons on the page
  and the variables that the handlers \<^verbatim>\<open>scanProducts\<close> and \<^verbatim>\<open>togglePlay\<close> close
  over are those of that render; a ref is read when the handler runs. \<open>frame\<close> of a
  video element is what \<^verbatim>\<open>ctx.drawImage\<close> followed by \<^verbatim>\<open>canvas.toDataURL("image/jpeg", 0.8)\<close> yields for
  it: the data URL, or the error thrown. \<open>context2d\<close> says whether
  \<^verbatim>\<open>canvas.getContext("2d")\<close> returns a context.
\<close>

record video_data =
  video_id :: jsstring
  video_title :: jsstring
  video_url :: jsstring
  source_type :: jsstring

record video_element =
  videoWidth :: nat
  videoHeight :: nat
  frame :: "js_error + jsstring"

record canvas_element =
  context2d :: bool

record toast =
  toast_title :: jsstring
  toast_description :: jsstring
  destructive :: bool

record invoke_body =
  imageData :: jsstring
  videoId :: jsstring
  isUrl :: bool

record render =
  shown_id :: jsstring
  shown_video :: "video_data option"
  shown_loading :: bool
  shown_isPlaying :: bool
  shown_isScanning :: bool

record player =
  route_id :: jsstring
  video :: "video_data option"
  loading :: bool
  isPlaying :: bool
  isScanning :: bool
  scannedProducts :: "scanned_product list"
  showProducts :: bool
  videoRef :: "video_element option"
  canvasRef :: "canvas_element option"
  ytPlayerRef :: bool
  toasts :: "toast list"
  inFlight :: "invoke_body list"
  rendered :: render

text \<open>A render is committed: the page now shows the state as it is.\<close>

definition commit :: "player \<Rightarrow> player" where
  "commit s =
     s\<lparr> rendered :=
          \<lparr> shown_id = route_id s, shown_video = video s, shown_loading = loading s,
            shown_isPlaying = isPlaying s, shown_isScanning = isScanning s \<rparr> \<rparr>"

text \<open>The component after its first render.\<close>

definition mounted :: "jsstring \<Rightarrow> player" where
  "mounted route =
     \<lparr> route_id = route, video = None, loading = True, isPlaying = False, isScanning = False,
       scannedProducts = [], showProducts = False, videoRef = None, canvasRef = None,
       ytPlayerRef = False, toasts = [], inFlight = [],
       rendered =
         \<lparr> shown_id = route, shown_video = None, shown_loading = True,
           shown_isPlaying = False, shown_isScanning = False \<rparr> \<rparr>"

subsection \<open>captureFrame and scanProducts\<close>

definition captureFrame :: "player \<Rightarrow> jsstring option" where
  "captureFrame s =
     (case videoRef s of
        None \<Rightarrow> None
      | Some videoEl \<Rightarrow>
          (case canvasRef s of
             None \<Rightarrow> None
           | Some canvas \<Rightarrow>
               if \<not> context2d canvas then None
               else if videoWidth videoEl = 0 \<or> videoHeight videoEl = 0 then None
               else (case frame videoEl of Inl e \<Rightarrow> None | Inr dataUrl \<Rightarrow> Some dataUrl)))"

definition isYoutubeVideo :: "player \<Rightarrow> bool" where
  "isYoutubeVideo s =
     (case shown_video (rendered s) of None \<Rightarrow> False | Some v \<Rightarrow> source_type v = js ''youtube'')"

definition couldNotCapture :: toast where
  "couldNotCapture =
     \<lparr> toast_title = js ''Could not capture frame'', toast_description = js ''Please try again.'',
       destructive = True \<rparr>"

text \<open>
  \<open>scanProducts\<close> up to its \<^verbatim>\<open>await\<close>: pause, take the image, and either show the
  capture toast and return, or set the scanning state and make the one
  \<^verbatim>\<open>supabase.functions.invoke("scan-products", ...)\<close> call. The function reads
  \<^verbatim>\<open>video\<close> and \<^verbatim>\<open>id\<close> of the render that created it and tests neither
  \<^verbatim>\<open>isScanning\<close> nor the calls in flight.
\<close>

definition pauseFirst :: "player \<Rightarrow> player" where
  "pauseFirst s =
     (if isYoutubeVideo s \<and> ytPlayerRef s then s\<lparr>isPlaying := False\<rparr>
      else if videoRef s \<noteq> None then s\<lparr>isPlaying := False\<rparr>
      else s)"

definition takeImage :: "player \<Rightarrow> jsstring option" where
  "takeImage s =
     (if isYoutubeVideo s then
        (case shown_video (rendered s) of
           None \<Rightarrow> None
         | Some v \<Rightarrow> map_option getYoutubeThumbnail (extractYoutubeId (video_url v)))
      else captureFrame s)"

definition dispatch :: "jsstring \<Rightarrow> player \<Rightarrow> player" where
  "dispatch img s =
     s\<lparr> isScanning := True, showProducts := False, scannedProducts := [],
        inFlight := inFlight s @
          [\<lparr> imageData = img, videoId = shown_id (rendered s), isUrl = isYoutubeVideo s \<rparr>] \<rparr>"

definition scanProducts :: "player \<Rightarrow> player" where
  "scanProducts s =
     (let s1 = pauseFirst s in
      case takeImage s1 of
        None \<Rightarrow> s1\<lparr>toasts := toasts s1 @ [couldNotCapture]\<rparr>
      | Some img \<Rightarrow>
          if img = [] then s1\<lparr>toasts := toasts s1 @ [couldNotCapture]\<rparr>
          else dispatch img s1)"

subsection \<open>The rest of scanProducts: after the invoke call resolves\<close>

text \<open>
  \<^verbatim>\<open>invoke\<close> resolves to \<^verbatim>\<open>{ data, error }\<close>. \<open>InvokeError m\<close> is an \<^verbatim>\<open>error\<close> with
  message \<open>m\<close>; \<open>InvokeData products\<close> is the \<^verbatim>\<open>data\<close> of a reply of the function,
  held as its \<^verbatim>\<open>products\<close> array (\<open>None\<close> when the reply has no such field).
\<close>

datatype invoke_result = InvokeError jsstring | InvokeData "product list option"

definition productsFound :: "nat \<Rightarrow> toast" where
  "productsFound n =
     \<lparr> toast_title = js ''Products found!'',
       toast_description =
         js ''Discovered '' @ decimal n @ js '' shoppable item'' @ (if n > 1 then js ''s'' else [])
           @ js ''.'',
       destructive = False \<rparr>"

definition noProductsFound :: toast where
  "noProductsFound =
     \<lparr> toast_title = js ''No products found'',
       toast_description = js ''Try scanning a different frame with visible products.'',
       destructive = False \<rparr>"

definition scanFailed :: "jsstring \<Rightarrow> toast" where
  "scanFailed message =
     \<lparr> toast_title = js ''Scan failed'',
       toast_description = (if message \<noteq> [] then message else js ''Please try again later.''),
       destructive = True \<rparr>"

definition afterInvoke ::
  "(nat \<Rightarrow> nat) \<Rightarrow> (nat \<Rightarrow> real) \<Rightarrow> invoke_result \<Rightarrow> player \<Rightarrow> player" where
  "afterInvoke clock random result s =
     (case result of
        InvokeError message \<Rightarrow>
          s\<lparr> toasts := toasts s @ [scanFailed message], isScanning := False \<rparr>
      | InvokeData products \<Rightarrow>
          (case products of
             None \<Rightarrow> s\<lparr> toasts := toasts s @ [noProductsFound], isScanning := False \<rparr>
           | Some ps \<Rightarrow>
               if length ps > 0 then
                 s\<lparr> scannedProducts := productsWithPositions clock random ps,
                     showProducts := True,
                     toasts := toasts s @ [productsFound (length ps)],
                     isScanning := False \<rparr>
               else s\<lparr> toasts := toasts s @ [noProductsFound], isScanning := False \<rparr>))"

text \<open>
  What \<^verbatim>\<open>supabase.functions.invoke\<close> makes of the function's HTTP response: a status
  outside 200 to 299 gives an \<^verbatim>\<open>error\<close> (its message is the library's, a parameter
  here) and no data; otherwise the parsed body is the \<^verbatim>\<open>data\<close>.
\<close>

definition invokeResult :: "jsstring \<Rightarrow> response \<Rightarrow> invoke_result" where
  "invokeResult httpErrorMessage r =
     (if ok (status r)
      then InvokeData (case body r of ProductsBody ps \<Rightarrow> Some ps | _ \<Rightarrow> None)
      else InvokeError httpErrorMessage)"

subsection \<open>Events of the page\<close>

text \<open>
  The scan button is rendered once the video is loaded; it carries
  \<^verbatim>\<open>disabled={isScanning}\<close> in the YouTube layout and
  \<^verbatim>\<open>disabled={isScanning || isPlaying}\<close> in the layout of uploaded videos, and a disabled
  button does not call \<^verbatim>\<open>onClick={scanProducts}\<close>. The button on the page is the one
  of the last committed render, so \<open>scanButtonEnabled\<close> reads \<open>rendered\<close>. \<open>overlays s\<close> is
  what a render of the state \<open>s\<close> shows under
  \<^verbatim>\<open>showProducts && scannedProducts.length > 0\<close>.

  The events are those of one mounted component; each runs to its end. \<open>Render\<close> is the
  commit of a render of the current state; no event of the page implies it, so two events
  may follow each other with no render in between. \<open>RouteChanges\<close> is a change of the route
  parameter \<^verbatim>\<open>id\<close> (the effect on \<^verbatim>\<open>[id]\<close> then fetches the video) and
  \<open>VideoFetched\<close> the \<^verbatim>\<open>setVideo(data)\<close> that ends the fetch; neither touches the
  scan state. \<open>TogglePlay\<close> is \<^verbatim>\<open>setIsPlaying(!isPlaying)\<close> with the
  \<^verbatim>\<open>isPlaying\<close> of the render. \<open>InvokeResolves\<close> resumes \<open>scanProducts\<close> after its
  \<^verbatim>\<open>await\<close> for the oldest call in flight, with the clock and the random source of that
  moment.
\<close>

definition scanButtonEnabled :: "player \<Rightarrow> bool" where
  "scanButtonEnabled s \<longleftrightarrow>
     \<not> shown_loading (rendered s) \<and> shown_video (rendered s) \<noteq> None
     \<and> (if isYoutubeVideo s then \<not> shown_isScanning (rendered s)
        else \<not> (shown_isScanning (rendered s) \<or> shown_isPlaying (rendered s)))"


datatype event =
    ClickScan
  | InvokeResolves "nat \<Rightarrow> nat" "nat \<Rightarrow> real" invoke_result
  | RouteChanges jsstring
  | VideoFetched video_data
  | RefsChange "video_element option" "canvas_element option" bool
  | TogglePlay
  | DismissProducts
  | Render

fun step :: "event \<Rightarrow> player \<Rightarrow> player" where
  "step ClickScan s = (if scanButtonEnabled s then scanProducts s else s)"
| "step (InvokeResolves clock random result) s =
     (case inFlight s of
        [] \<Rightarrow> s
      | request # others \<Rightarrow> afterInvoke clock random result (s\<lparr>inFlight := others\<rparr>))"
| "step (RouteChanges route) s = s\<lparr>route_id := route\<rparr>"
| "step (VideoFetched v) s = s\<lparr>video := Some v, loading := False\<rparr>"
| "step (RefsChange v c yt) s = s\<lparr>videoRef := v, canvasRef := c, ytPlayerRef := yt\<rparr>"
| "step TogglePlay s = s\<lparr>isPlaying := \<not> shown_isPlaying (rendered s)\<rparr>"
| "step DismissProducts s = s\<lparr>showProducts := False\<rparr>"
| "step Render s = commit s"

fun run :: "event list \<Rightarrow> player \<Rightarrow> player" where
  "run [] s = s"
| "run (e # es) s = run es (step e s)"

section \<open>Values for the examples and auxiliary predicates\<close>

text \<open>
  A platform for the examples: its \<open>JSON_parse\<close> is \<^verbatim>\<open>JSON.parse\<close> on the texts of the
  examples (a gateway reply whose message content is \<^verbatim>\<open>not an array\<close>; an answer with
  one product; the text \<^verbatim>\<open>not an array\<close> itself, which is no JSON) and rejects every
  other text; its other two services are not called by the examples.
\<close>

definition sample_parse :: "jsstring \<Rightarrow> jsval option" where
  \<open>sample_parse text =
     (if text = js ''{"choices":[{"message":{"content":"not an array"}}]}''
      then Some (JObj [(js ''choices'',
                   JArr [JObj [(js ''message'',
                     JObj [(js ''content'', JStr (js ''not an array''))])]])])
      else if text = js ''[{"name":"Black leather crossbody bag","category":"Fashion"}]''
      then Some (JArr [JObj [(js ''name'', JStr (js ''Black leather crossbody bag'')),
                             (js ''category'', JStr (js ''Fashion''))]])
      else None)\<close>

definition sample_platform :: platform where
  "sample_platform =
     \<lparr> JSON_parse = sample_parse,
       ToString_other = (\<lambda>v. Inl TypeError),
       engine_message = (\<lambda>e. js ''error'') \<rparr>"

text \<open>
  An answer with two candidate entries, the name of the second being a single unpaired
  surrogate (the code unit D800, which an escape in the gateway's JSON produces), and a platform whose \<open>JSON_parse\<close> is
  \<^verbatim>\<open>JSON.parse\<close> on that answer.
\<close>

definition surrogate_answer :: jsstring where
  \<open>surrogate_answer =
     js ''[{"name":"Black leather crossbody bag","category":"Fashion"},{"name":"'' @ [0xD800]
       @ js ''","category":"Fashion"}]''\<close>

definition surrogate_parse :: "jsstring \<Rightarrow> jsval option" where
  "surrogate_parse text =
     (if text = surrogate_answer
      then Some (JArr [JObj [(js ''name'', JStr (js ''Black leather crossbody bag'')),
                             (js ''category'', JStr (js ''Fashion''))],
                       JObj [(js ''name'', JStr [0xD800]),
                             (js ''category'', JStr (js ''Fashion''))]])
      else None)"

definition surrogate_platform :: platform where
  "surrogate_platform =
     \<lparr> JSON_parse = surrogate_parse,
       ToString_other = (\<lambda>v. Inl TypeError),
       engine_message = (\<lambda>e. js ''error'') \<rparr>"

definition sample_request :: request where
  "sample_request =
     \<lparr> http_method = js ''POST'',
       json_body = Inr (JObj [(js ''imageData'', JStr (js ''https://img.youtube.com/vi/dQw4w9WgXcQ/maxresdefault.jpg'')),
                              (js ''videoId'', JStr (js ''A'')),
                              (js ''isUrl'', JBool True)]) \<rparr>"

definition video_A :: video_data where
  "video_A =
     \<lparr> video_id = js ''A'', video_title = js ''First'',
       video_url = js ''https://youtu.be/dQw4w9WgXcQ'', source_type = js ''youtube'' \<rparr>"


definition upload_C :: video_data where
  "upload_C =
     \<lparr> video_id = js ''C'', video_title = js ''Third'',
       video_url = js ''https://example.supabase.co/storage/v1/object/public/videos/u/1.mp4'',
       source_type = js ''upload'' \<rparr>"

text \<open>
  The checks of the handler that come before the \<^verbatim>\<open>fetch\<close>: the method is not
  \<^verbatim>\<open>OPTIONS\<close>, the body is JSON that can be destructured, \<^verbatim>\<open>imageData\<close> is truthy
  and the API key is configured.
\<close>

definition passesChecks :: "jsstring option \<Rightarrow> request \<Rightarrow> bool" where
  "passesChecks LOVABLE_API_KEY req \<longleftrightarrow>
     http_method req \<noteq> js ''OPTIONS''
     \<and> (case json_body req of
          Inl e \<Rightarrow> False
        | Inr parsed \<Rightarrow> \<not> nullish parsed \<and> truthy (getProp parsed (js ''imageData'')))
     \<and> LOVABLE_API_KEY \<noteq> None \<and> LOVABLE_API_KEY \<noteq> Some []"

text \<open>
  The page after the first video was fetched and rendered and the scan button was clicked
  once.
\<close>

definition scanning_A :: player where
  "scanning_A = run [VideoFetched video_A, Render, ClickScan] (mounted (js ''A''))"


text \<open>An uploaded video, fetched and rendered, whose element has not decoded a frame yet.\<close>

definition undecoded_C :: player where
  "undecoded_C =
     run [VideoFetched upload_C,
          RefsChange (Some \<lparr> videoWidth = 0, videoHeight = 0, frame = Inr (js ''data:,'') \<rparr>)
            (Some \<lparr> context2d = True \<rparr>) False,
          Render]
       (mounted (js ''C''))"

text \<open>
  The single-flight invariant: at most one call is in flight, and one is in flight exactly
  while \<open>isScanning\<close> holds.
\<close>

definition singleFlight :: "player \<Rightarrow> bool" where
  "singleFlight s \<longleftrightarrow> length (inFlight s) \<le> 1 \<and> (isScanning s \<longleftrightarrow> inFlight s \<noteq> [])"

text \<open>
  \<open>clicksFollowRender events\<close>: every click on the scan button comes right after the commit
  of a render, so that the button clicked is the button of the current state.
\<close>

fun clicksFollowRender :: "event list \<Rightarrow> bool" where
  "clicksFollowRender [] \<longleftrightarrow> True"
| "clicksFollowRender (ClickScan # es) \<longleftrightarrow> False"
| "clicksFollowRender (Render # ClickScan # es) \<longleftrightarrow> clicksFollowRender es"
| "clicksFollowRender (e # es) \<longleftrightarrow> clicksFollowRender es"

text \<open>
  \<open>noStartWithin lit c\<close>: at no position of the text \<open>c\<close> can a match of the literal \<open>lit\<close>
  start, whatever follows \<open>c\<close>, because the part of \<open>c\<close> from that position on already
  differs from \<open>lit\<close>.
\<close>

fun noStartWithin :: "jsstring \<Rightarrow> jsstring \<Rightarrow> bool" where
  "noStartWithin lit [] = True"
| "noStartWithin lit (c # cs) =
     (take (length (c # cs)) lit \<noteq> take (length lit) (c # cs) \<and> noStartWithin lit cs)"

section \<open>Properties of double arithmetic\<close>

lemma pow2_powr: "pow2 k = 2 powr real_of_int k"
  by (simp add: pow2_def powr_real_of_int field_simps)

lemma pow2_pos [simp]: "0 < pow2 k"
  by (simp add: pow2_powr)

lemma pow2_add: "pow2 (a + b) = pow2 a * pow2 b"
  by (simp add: pow2_powr powr_add)

lemma pow2_mono: "a \<le> b \<Longrightarrow> pow2 a \<le> pow2 b"
  by (simp add: pow2_powr)

lemma pow2_nat: "pow2 (int n) = 2 ^ n"
  by (simp add: pow2_def)

lemma binade_upper: "0 < x \<Longrightarrow> x < pow2 (binade x + 1)"
proof -
  assume x: "0 < x"
  have "log 2 x < real_of_int (\<lfloor>log 2 x\<rfloor> + 1)" by linarith
  also have "\<dots> \<le> real_of_int (binade x + 1)"
    using x by (simp add: binade_def)
  finally have "log 2 x < real_of_int (binade x + 1)" .
  then show ?thesis using x by (simp add: pow2_powr log_less_iff)
qed

lemma binade_lower: "0 < x \<Longrightarrow> - 1022 < binade x \<Longrightarrow> pow2 (binade x) \<le> x"
proof -
  assume x: "0 < x" and n: "- 1022 < binade x"
  then have "binade x = \<lfloor>log 2 x\<rfloor>" by (simp add: binade_def max_def split: if_splits)
  then have "real_of_int (binade x) \<le> log 2 x" by simp
  then show ?thesis using x by (simp add: pow2_powr le_log_iff)
qed

lemma binade_mono: "0 < x \<Longrightarrow> x \<le> y \<Longrightarrow> binade x \<le> binade y"
  by (simp add: binade_def floor_mono max.coboundedI1)

lemma binade_eq:
  assumes "pow2 e \<le> x" and "x < pow2 (e + 1)" and "- 1022 \<le> e"
  shows "binade x = e"
proof -
  have x: "0 < x" using assms(1) pow2_pos [of e] by linarith
  have "real_of_int e \<le> log 2 x" using assms(1) x by (simp add: pow2_powr le_log_iff)
  moreover have "log 2 x < real_of_int e + 1" using assms(2) x by (simp add: pow2_powr log_less_iff)
  ultimately have "\<lfloor>log 2 x\<rfloor> = e" by linarith
  then show ?thesis using x assms(3) by (simp add: binade_def)
qed

lemma roundHalfEven_int [simp]: "roundHalfEven (of_int n) = n"
  by (simp add: roundHalfEven_def)

lemma roundHalfEven_near: "\<bar>of_int (roundHalfEven q) - q\<bar> \<le> 1 / 2"
  unfolding roundHalfEven_def by (auto; linarith)

lemma roundHalfEven_cases: "roundHalfEven q = \<lfloor>q\<rfloor> \<or> roundHalfEven q = \<lfloor>q\<rfloor> + 1"
  by (simp add: roundHalfEven_def)

lemma roundHalfEven_mono:
  assumes "q \<le> q'"
  shows "roundHalfEven q \<le> roundHalfEven q'"
proof (cases "\<lfloor>q\<rfloor> = \<lfloor>q'\<rfloor>")
  case True
  then show ?thesis using assms unfolding roundHalfEven_def by (auto; linarith)
next
  case False
  then have "\<lfloor>q\<rfloor> < \<lfloor>q'\<rfloor>" using assms floor_mono [of q q'] by linarith
  moreover have "roundHalfEven q \<le> \<lfloor>q\<rfloor> + 1" using roundHalfEven_cases [of q] by linarith
  moreover have "\<lfloor>q'\<rfloor> \<le> roundHalfEven q'" using roundHalfEven_cases [of q'] by linarith
  ultimately show ?thesis by linarith
qed


lemma ulp_pos [simp]: "0 < ulp x"
  by (simp add: ulp_def)

lemma ulp_nonneg [simp]: "0 \<le> ulp x"
  by (simp add: less_imp_le)

lemma ulp_nonzero [simp]: "ulp x \<noteq> 0"
  using ulp_pos [of x] by linarith

lemma pow2_shift_53: "pow2 (b + 1) = 2 ^ 53 * pow2 (b - 52)"
proof -
  have "b + 1 = 53 + (b - 52)" by simp
  then have "pow2 (b + 1) = pow2 53 * pow2 (b - 52)"
    by (metis pow2_add)
  moreover have "pow2 53 = 2 ^ 53" by (simp add: pow2_def)
  ultimately show ?thesis by simp
qed

lemma pow2_shift_52: "pow2 b = 2 ^ 52 * pow2 (b - 52)"
proof -
  have "b = 52 + (b - 52)" by simp
  then have "pow2 b = pow2 52 * pow2 (b - 52)"
    by (metis pow2_add)
  moreover have "pow2 52 = 2 ^ 52" by (simp add: pow2_def)
  ultimately show ?thesis by simp
qed

lemma of_int_le_power: "z \<le> 2 ^ k \<Longrightarrow> real_of_int z \<le> 2 ^ k"
proof -
  assume "z \<le> 2 ^ k"
  then have "real_of_int z \<le> real_of_int (2 ^ k)" by (simp only: of_int_le_iff)
  then show ?thesis by simp
qed

lemma power_le_of_int: "2 ^ k \<le> z \<Longrightarrow> 2 ^ k \<le> real_of_int z"
proof -
  assume "2 ^ k \<le> z"
  then have "real_of_int (2 ^ k) \<le> real_of_int z" by (simp only: of_int_le_iff)
  then show ?thesis by simp
qed

lemma toDouble_nonneg: "0 \<le> x \<Longrightarrow> 0 \<le> toDouble x"
proof -
  assume x: "0 \<le> x"
  have "0 \<le> x / ulp x" using x by simp
  then have "roundHalfEven 0 \<le> roundHalfEven (x / ulp x)"
    by (rule roundHalfEven_mono)
  then have "0 \<le> roundHalfEven (x / ulp x)"
    using roundHalfEven_int [of 0] by simp
  then show ?thesis by (simp add: toDouble_def)
qed

lemma scaled_upper: "0 < x \<Longrightarrow> x / ulp x < 2 ^ 53"
proof -
  assume x: "0 < x"
  have "x < 2 ^ 53 * ulp x"
    using binade_upper [OF x] pow2_shift_53 [of "binade x"] by (simp add: ulp_def)
  then show ?thesis by (simp add: pos_divide_less_eq)
qed

lemma scaled_lower: "0 < x \<Longrightarrow> - 1022 < binade x \<Longrightarrow> 2 ^ 52 \<le> x / ulp x"
proof -
  assume x: "0 < x" and n: "- 1022 < binade x"
  have "2 ^ 52 * ulp x \<le> x"
    using binade_lower [OF x n] pow2_shift_52 [of "binade x"] by (simp add: ulp_def)
  then show ?thesis by (simp add: pos_le_divide_eq)
qed

lemma toDouble_upper: "0 < x \<Longrightarrow> toDouble x \<le> pow2 (binade x + 1)"
proof -
  assume x: "0 < x"
  have "x / ulp x \<le> real_of_int (2 ^ 53)"
    using scaled_upper [OF x] by simp
  then have "roundHalfEven (x / ulp x) \<le> roundHalfEven (real_of_int (2 ^ 53))"
    by (rule roundHalfEven_mono)
  then have "roundHalfEven (x / ulp x) \<le> 2 ^ 53" by (simp only: roundHalfEven_int)
  then have "real_of_int (roundHalfEven (x / ulp x)) \<le> 2 ^ 53"
    by (rule of_int_le_power)
  then have "real_of_int (roundHalfEven (x / ulp x)) * ulp x \<le> 2 ^ 53 * ulp x"
    by (rule mult_right_mono) simp
  then show ?thesis
    using x pow2_shift_53 [of "binade x"] by (simp add: toDouble_def ulp_def)
qed

lemma toDouble_lower: "0 < x \<Longrightarrow> - 1022 < binade x \<Longrightarrow> pow2 (binade x) \<le> toDouble x"
proof -
  assume x: "0 < x" and n: "- 1022 < binade x"
  have "real_of_int (2 ^ 52) \<le> x / ulp x"
    using scaled_lower [OF x n] by simp
  then have "roundHalfEven (real_of_int (2 ^ 52)) \<le> roundHalfEven (x / ulp x)"
    by (rule roundHalfEven_mono)
  then have "2 ^ 52 \<le> roundHalfEven (x / ulp x)" by (simp only: roundHalfEven_int)
  then have "2 ^ 52 \<le> real_of_int (roundHalfEven (x / ulp x))"
    by (rule power_le_of_int)
  then have "2 ^ 52 * ulp x \<le> real_of_int (roundHalfEven (x / ulp x)) * ulp x"
    by (rule mult_right_mono) simp
  then show ?thesis
    using x pow2_shift_52 [of "binade x"] by (simp add: toDouble_def ulp_def)
qed

lemma toDouble_mono:
  assumes "0 \<le> x" and "x \<le> y"
  shows "toDouble x \<le> toDouble y"
proof (cases "x = 0")
  case True
  then show ?thesis using toDouble_nonneg [of y] assms by (simp add: toDouble_def)
next
  case False
  then have x: "0 < x" and y: "0 < y" using assms by simp_all
  show ?thesis
  proof (cases "binade x = binade y")
    case True
    then have u: "ulp x = ulp y" by (simp add: ulp_def)
    have "x / ulp y \<le> y / ulp y" using assms(2) by (rule divide_right_mono) simp
    then have "roundHalfEven (x / ulp y) \<le> roundHalfEven (y / ulp y)"
      by (rule roundHalfEven_mono)
    then have "real_of_int (roundHalfEven (x / ulp y)) \<le> real_of_int (roundHalfEven (y / ulp y))"
      by simp
    then have "real_of_int (roundHalfEven (x / ulp y)) * ulp y
                 \<le> real_of_int (roundHalfEven (y / ulp y)) * ulp y"
      by (rule mult_right_mono) simp
    then show ?thesis using x y u by (simp add: toDouble_def)
  next
    case False
    then have lt: "binade x < binade y" using binade_mono [OF x assms(2)] by simp
    have n: "- 1022 < binade y"
    proof -
      have "- 1022 \<le> binade x" by (simp add: binade_def)
      then show ?thesis using lt by simp
    qed
    have "toDouble x \<le> pow2 (binade x + 1)" by (rule toDouble_upper [OF x])
    also have "\<dots> \<le> pow2 (binade y)" using lt by (intro pow2_mono) simp
    also have "\<dots> \<le> toDouble y" by (rule toDouble_lower [OF y n])
    finally show ?thesis .
  qed
qed

lemma toDouble_error: "\<bar>toDouble x - x\<bar> \<le> ulp x / 2"
proof (cases "x = 0")
  case True
  then show ?thesis by (simp add: toDouble_def)
next
  case False
  have "\<bar>real_of_int (roundHalfEven (x / ulp x)) - x / ulp x\<bar> * ulp x \<le> 1 / 2 * ulp x"
    using roundHalfEven_near [of "x / ulp x"] by (rule mult_right_mono) simp
  moreover have "\<bar>real_of_int (roundHalfEven (x / ulp x)) - x / ulp x\<bar> * ulp x
                   = \<bar>real_of_int (roundHalfEven (x / ulp x)) * ulp x - x\<bar>"
  proof -
    have "\<bar>real_of_int (roundHalfEven (x / ulp x)) - x / ulp x\<bar> * ulp x
            = \<bar>(real_of_int (roundHalfEven (x / ulp x)) - x / ulp x) * ulp x\<bar>"
      by (simp add: abs_mult)
    also have "(real_of_int (roundHalfEven (x / ulp x)) - x / ulp x) * ulp x
                 = real_of_int (roundHalfEven (x / ulp x)) * ulp x - x"
      by (simp add: left_diff_distrib)
    finally show ?thesis .
  qed
  ultimately show ?thesis using False by (simp add: toDouble_def)
qed

text \<open>Integers below \<open>2 ^ 53\<close> are doubles.\<close>

lemma toDouble_int:
  assumes "0 \<le> n" and "n < 2 ^ 53"
  shows "toDouble (of_int n) = of_int n"
proof (cases "n = 0")
  case True
  then show ?thesis by (simp add: toDouble_def)
next
  case False
  then have n: "1 \<le> n" using assms(1) by simp
  let ?x = "real_of_int n"
  have x: "0 < ?x" using n by simp
  have ax: "\<bar>?x\<bar> = ?x" using x by simp
  have b0: "0 \<le> binade ?x"
  proof -
    have "0 \<le> log 2 ?x" using n by simp
    then have "0 \<le> \<lfloor>log 2 ?x\<rfloor>" by simp
    then show ?thesis unfolding binade_def ax by simp
  qed
  have b52: "binade ?x \<le> 52"
  proof -
    have "?x < real_of_int (2 ^ 53)" using assms(2) by (simp only: of_int_less_iff)
    then have "?x < 2 powr 53" by simp
    then have "log 2 ?x < 53" using x by (simp add: log_less_iff)
    then have "\<lfloor>log 2 ?x\<rfloor> \<le> 52" by linarith
    then show ?thesis unfolding binade_def ax by simp
  qed
  define k where "k = nat (52 - binade ?x)"
  have u: "ulp ?x = 1 / 2 ^ k"
  proof (cases "binade ?x = 52")
    case True
    then show ?thesis by (simp add: ulp_def pow2_def k_def)
  next
    case False
    then have "binade ?x - 52 < 0" using b52 by simp
    then show ?thesis by (simp add: ulp_def pow2_def k_def)
  qed
  have "?x / ulp ?x = real_of_int (n * 2 ^ k)" by (simp add: u)
  then have "roundHalfEven (?x / ulp ?x) = n * 2 ^ k" by (simp only: roundHalfEven_int)
  then have "real_of_int (roundHalfEven (?x / ulp ?x)) * ulp ?x = ?x" by (simp add: u)
  then show ?thesis using False by (simp add: toDouble_def)
qed

lemma toDouble_nat: "n < 2 ^ 53 \<Longrightarrow> toDouble (real n) = real n"
proof -
  assume "n < 2 ^ 53"
  then have "int n < 2 ^ 53" by (metis of_nat_less_iff of_nat_numeral of_nat_power)
  then have "toDouble (real_of_int (int n)) = real_of_int (int n)"
    by (intro toDouble_int) simp_all
  then show ?thesis by simp
qed


lemma binade_le:
  assumes "0 < x" and "x < pow2 (e + 1)" and "- 1022 \<le> e"
  shows "binade x \<le> e"
proof -
  have "log 2 x < real_of_int (e + 1)"
    using assms(1,2) by (simp add: pow2_powr log_less_iff)
  then have "\<lfloor>log 2 x\<rfloor> \<le> e" by linarith
  then show ?thesis using assms(1,3) by (simp add: binade_def)
qed

lemma ulp_le:
  assumes "0 < x" and "x < pow2 (e + 1)" and "- 1022 \<le> e"
  shows "ulp x \<le> pow2 (e - 52)"
  unfolding ulp_def using binade_le [OF assms] by (intro pow2_mono) simp

lemma floor_third:
  assumes "i < 2 ^ 32"
  shows "\<lfloor>toDouble (real i / 3)\<rfloor> = int (i div 3)"
proof (cases "i mod 3 = 0")
  case True
  then have "real i / 3 = real (i div 3)"
    by (metis div_mult_mod_eq add.right_neutral of_nat_mult of_nat_numeral
        nonzero_mult_div_cancel_right zero_neq_numeral)
  moreover have "i div 3 < 2 ^ 53" using assms by simp
  ultimately have "toDouble (real i / 3) = real (i div 3)"
    using toDouble_nat [of "i div 3"] by simp
  then show ?thesis by simp
next
  case False
  define k where "k = i div 3"
  define m where "m = i mod 3"
  have i: "i = 3 * k + m" by (simp add: k_def m_def)
  have m: "m = 1 \<or> m = 2" using False unfolding m_def by presburger
  let ?x = "real i / 3"
  have x: "?x = real k + real m / 3" by (simp add: i)
  have pos: "0 < ?x" using m x by auto
  have lt: "?x < pow2 (31 + 1)"
  proof -
    have "real i < 2 ^ 32" using assms by (metis of_nat_less_iff of_nat_numeral of_nat_power)
    then show ?thesis by (simp add: pow2_def)
  qed
  have "ulp ?x \<le> pow2 (31 - 52)" by (rule ulp_le [OF pos lt]) simp
  then have u: "ulp ?x \<le> 1 / 2 ^ 21" by (simp add: pow2_def)
  have e: "\<bar>toDouble ?x - ?x\<bar> \<le> 1 / 2 ^ 22"
    using toDouble_error [of ?x] u by simp
  have "real k + 1 / 3 \<le> ?x" and "?x \<le> real k + 2 / 3"
    using m by (auto simp add: i)
  moreover have "?x - 1 / 2 ^ 22 \<le> toDouble ?x" and "toDouble ?x \<le> ?x + 1 / 2 ^ 22"
    using e by linarith+
  ultimately have "real k \<le> toDouble ?x" and "toDouble ?x < real k + 1"
    by simp_all
  then have "\<lfloor>toDouble ?x\<rfloor> = int k"
    by (intro floor_unique) simp_all
  then show ?thesis by (simp add: k_def)
qed

text \<open>Evaluating the rounding.\<close>

lemma roundHalfEven_down: "of_int m \<le> q \<Longrightarrow> q < of_int m + 1 / 2 \<Longrightarrow> roundHalfEven q = m"
proof -
  assume a: "of_int m \<le> q" "q < of_int m + 1 / 2"
  then have "\<lfloor>q\<rfloor> = m" by linarith
  then show ?thesis using a by (simp add: roundHalfEven_def)
qed



lemma toDouble_eval:
  assumes "pow2 e \<le> x" and "x < pow2 (e + 1)" and "- 1022 \<le> e"
      and "roundHalfEven (x / pow2 (e - 52)) = m"
  shows "toDouble x = of_int m * pow2 (e - 52)"
proof -
  have "0 < x" using assms(1) pow2_pos [of e] by linarith
  then show ?thesis
    using binade_eq [OF assms(1,2,3)] assms(4) by (simp add: toDouble_def ulp_def)
qed

lemma below_ten: "toDouble ((1 - 1 / 2 ^ 53) * 10) = 10 - 1 / 2 ^ 49"
proof -
  have r: "roundHalfEven ((1 - 1 / 2 ^ 53) * 10 / pow2 (3 - 52)) = 10 * 2 ^ 49 - 1"
    by (rule roundHalfEven_down) (simp_all add: pow2_def)
  show ?thesis
    by (subst toDouble_eval [where e = 3, OF _ _ _ r]) (simp_all add: pow2_def)
qed

lemma largest_below_one:
  assumes "isDouble r" and "0 \<le> r" and "r < 1"
  shows "r \<le> 1 - 1 / 2 ^ 53"
proof (cases "r = 0")
  case True
  then show ?thesis by simp
next
  case False
  then have r: "0 < r" using assms(2) by simp
  have "r < pow2 (- 1 + 1)" using assms(3) by (simp add: pow2_def)
  then have b: "binade r \<le> - 1" by (intro binade_le [OF r]) simp_all
  show ?thesis
  proof (cases "binade r = - 1")
    case True
    then have u: "ulp r = 1 / 2 ^ 53" by (simp add: ulp_def pow2_def)
    define n where "n = roundHalfEven (r / ulp r)"
    have eq: "r = real_of_int n * ulp r"
      using assms(1) \<open>r \<noteq> 0\<close> by (simp add: isDouble_def toDouble_def n_def)
    then have "real_of_int n < 2 ^ 53"
      using assms(3) u by (simp add: field_simps)
    then have "real_of_int n < real_of_int (2 ^ 53)" by simp
    then have "n < 2 ^ 53" by (simp only: of_int_less_iff)
    then have "n \<le> 2 ^ 53 - 1" by simp
    then have "real_of_int n \<le> real_of_int (2 ^ 53 - 1)"
      by (simp only: of_int_le_iff)
    then have "real_of_int n * ulp r \<le> real_of_int (2 ^ 53 - 1) * ulp r"
      by (rule mult_right_mono) simp
    then have "r \<le> real_of_int (2 ^ 53 - 1) * ulp r" using eq by simp
    then show ?thesis by (simp add: u)
  next
    case False
    then have "binade r + 1 \<le> - 1" using b by simp
    then have "pow2 (binade r + 1) \<le> pow2 (- 1)" by (rule pow2_mono)
    then have "r < 1 / 2" using binade_upper [OF r] by (simp add: pow2_def)
    then show ?thesis by simp
  qed
qed

lemma toDouble_jitter:
  assumes "isDouble r" and "0 \<le> r" and "r < 1"
  shows "0 \<le> toDouble (r * 10)" and "toDouble (r * 10) < 10"
proof -
  show "0 \<le> toDouble (r * 10)" using assms(2) by (intro toDouble_nonneg) simp
  have "r * 10 \<le> (1 - 1 / 2 ^ 53) * 10"
    using largest_below_one [OF assms] by simp
  then have "toDouble (r * 10) \<le> toDouble ((1 - 1 / 2 ^ 53) * 10)"
    using assms(2) by (intro toDouble_mono) simp_all
  moreover have "toDouble ((1 - 1 / 2 ^ 53) * 10) < 10" by (subst below_ten) simp
  ultimately show "toDouble (r * 10) < 10" by (rule le_less_trans)
qed

lemma toDouble_zero [simp]: "toDouble 0 = 0"
  by (simp add: toDouble_def)

lemma toDouble_numeral: "(numeral w :: nat) < 2 ^ 53 \<Longrightarrow> toDouble (numeral w) = numeral w"
  using toDouble_nat [of "numeral w"] by simp

lemma fadd_nat: "a + b < 2 ^ 53 \<Longrightarrow> fadd (real a) (real b) = real (a + b)"
  using toDouble_nat [of "a + b"] by (simp add: fadd_def)

lemma fmul_nat: "a * b < 2 ^ 53 \<Longrightarrow> fmul (real a) (real b) = real (a * b)"
  using toDouble_nat [of "a * b"] by (simp add: fmul_def)

lemma isDouble_half: "isDouble (1 / 2)"
proof -
  have r: "roundHalfEven (1 / 2 / pow2 (- 1 - 52)) = 2 ^ 52"
    using roundHalfEven_int [of "2 ^ 52"] by (simp add: pow2_def)
  show ?thesis
    unfolding isDouble_def
    by (subst toDouble_eval [where e = "- 1", OF _ _ _ r]) (simp_all add: pow2_def)
qed

lemma isDouble_below_one: "isDouble (1 - 1 / 2 ^ 52)"
proof -
  have "(1 - 1 / 2 ^ 52) / pow2 (- 1 - 52) = real_of_int (2 ^ 53 - 2)"
    by (simp add: pow2_def)
  then have r: "roundHalfEven ((1 - 1 / 2 ^ 52) / pow2 (- 1 - 52)) = 2 ^ 53 - 2"
    by (simp only: roundHalfEven_int)
  show ?thesis
    unfolding isDouble_def
    by (subst toDouble_eval [where e = "- 1", OF _ _ _ r]) (simp_all add: pow2_def)
qed



section \<open>Properties of the overlay layout\<close>

lemma nth_productsWithPositions:
  "i < length ps \<Longrightarrow>
     productsWithPositions clock random ps ! i = withPosition clock random (i, ps ! i)"
  by (simp add: productsWithPositions_def nth_enumerate_eq)

lemma length_productsWithPositions [simp]:
  "length (productsWithPositions clock random ps) = length ps"
  by (simp add: productsWithPositions_def)

lemma jitter_range:
  assumes "unit_interval random"
  shows "0 \<le> jitter_x random i" "jitter_x random i < 10"
        "0 \<le> jitter_y random i" "jitter_y random i < 10"
proof -
  have d: "isDouble (random k) \<and> 0 \<le> random k \<and> random k < 1" for k
    using assms by (simp add: unit_interval_def)
  show "0 \<le> jitter_x random i" "jitter_x random i < 10"
    using toDouble_jitter [of "random (2 * i)"] d [of "2 * i"]
    by (simp_all add: jitter_x_def fmul_def)
  show "0 \<le> jitter_y random i" "jitter_y random i < 10"
    using toDouble_jitter [of "random (2 * i + 1)"] d [of "2 * i + 1"]
    by (simp_all add: jitter_y_def fmul_def)
qed

lemma unit_interval_const: "unit_interval (\<lambda>k. 1 / 2)"
  by (simp add: unit_interval_def isDouble_half)

lemma unit_interval_below_one: "unit_interval draws_below_one"
  using isDouble_below_one by (simp add: unit_interval_def draws_below_one_def)

lemma mod3_cases: "(i::nat) mod 3 = 0 \<or> i mod 3 = 1 \<or> i mod 3 = 2"
  by presburger

text \<open>The terms without jitter are integers, so the operations that build them are exact.\<close>

lemma column_exact: "fadd 10 (fmul (real (i mod 3)) 30) = 10 + real (i mod 3) * 30"
proof -
  have m: "i mod 3 * 30 < 2 ^ 53" and a: "10 + i mod 3 * 30 < 2 ^ 53"
    using mod3_cases [of i] by auto
  have "fmul (real (i mod 3)) 30 = real (i mod 3 * 30)"
    using fmul_nat [OF m] by simp
  moreover have "fadd 10 (real (i mod 3 * 30)) = real (10 + i mod 3 * 30)"
    using fadd_nat [OF a] by simp
  ultimately show ?thesis by simp
qed

lemma row_exact:
  assumes "i < 2 ^ 32"
  shows "fadd 10 (fmul (of_int \<lfloor>fdiv (real i) 3\<rfloor>) 25) = 10 + real (i div 3) * 25"
proof -
  have k: "i div 3 < 2 ^ 32" using assms by simp
  then have "i div 3 * 25 < 2 ^ 32 * 25" by simp
  then have m: "i div 3 * 25 < 2 ^ 53" by simp
  then have a: "10 + i div 3 * 25 < 2 ^ 53" using k by simp
  have "of_int \<lfloor>fdiv (real i) 3\<rfloor> = real (i div 3)"
    using floor_third [OF assms] by (simp add: fdiv_def)
  moreover have "fmul (real (i div 3)) 25 = real (i div 3 * 25)"
    using fmul_nat [OF m] by simp
  moreover have "fadd 10 (real (i div 3 * 25)) = real (10 + i div 3 * 25)"
    using fadd_nat [OF a] by simp
  ultimately show ?thesis by simp
qed

lemma position_x_eq:
  assumes "i < length ps"
  shows "position_x (productsWithPositions clock random ps ! i)
           = toDouble (10 + real (i mod 3) * 30 + jitter_x random i)"
  using assms
  by (simp add: nth_productsWithPositions withPosition_def column_exact) (simp add: fadd_def)

lemma position_y_eq:
  assumes "i < length ps" and "i < 2 ^ 32"
  shows "position_y (productsWithPositions clock random ps ! i)
           = toDouble (10 + real (i div 3) * 25 + jitter_y random i)"
  using assms(1) row_exact [OF assms(2)]
  by (simp add: nth_productsWithPositions withPosition_def fadd_def)

text \<open>Rounding keeps a value between two doubles that enclose the exact one.\<close>

lemma toDouble_between:
  assumes "real lo \<le> x" and "x \<le> real hi" and "hi < 2 ^ 53"
  shows "real lo \<le> toDouble x" and "toDouble x \<le> real hi"
proof -
  have lo: "lo < 2 ^ 53"
  proof -
    have "real lo \<le> real hi" using assms(1,2) by linarith
    then show ?thesis using assms(3) by simp
  qed
  have "toDouble (real lo) \<le> toDouble x"
    using assms(1) by (intro toDouble_mono) simp_all
  then show "real lo \<le> toDouble x" using toDouble_nat [OF lo] by simp
  have "0 \<le> x" using assms(1) of_nat_0_le_iff [of lo] by linarith
  then have "toDouble x \<le> toDouble (real hi)"
    using assms(2) by (intro toDouble_mono) simp_all
  then show "toDouble x \<le> real hi" using toDouble_nat [OF assms(3)] by simp
qed

lemma toDouble_at_least:
  assumes "real lo \<le> x" and "lo < 2 ^ 53"
  shows "real lo \<le> toDouble x"
proof -
  have "toDouble (real lo) \<le> toDouble x"
    using assms(1) by (intro toDouble_mono) simp_all
  then show ?thesis using toDouble_nat [OF assms(2)] by simp
qed

lemma row_at_least:
  assumes "real c \<le> real i / 3" and "c \<le> 4" and "0 \<le> j"
  shows "real (10 + c * 25) \<le> fadd (fadd 10 (fmul (of_int \<lfloor>fdiv (real i) 3\<rfloor>) 25)) j"
proof -
  have c: "c < 2 ^ 53" and m: "c * 25 < 2 ^ 53" and a: "10 + c * 25 < 2 ^ 53"
    using assms(2) by simp_all
  have "real c \<le> fdiv (real i) 3"
    unfolding fdiv_def by (rule toDouble_at_least [OF assms(1) c])
  then have "int c \<le> \<lfloor>fdiv (real i) 3\<rfloor>" by (simp add: le_floor_iff)
  then have "real_of_int (int c) \<le> real_of_int \<lfloor>fdiv (real i) 3\<rfloor>"
    by (simp only: of_int_le_iff)
  then have "real (c * 25) \<le> real_of_int \<lfloor>fdiv (real i) 3\<rfloor> * 25" by simp
  then have "real (c * 25) \<le> fmul (of_int \<lfloor>fdiv (real i) 3\<rfloor>) 25"
    unfolding fmul_def by (rule toDouble_at_least [OF _ m])
  then have "real (10 + c * 25) \<le> 10 + fmul (of_int \<lfloor>fdiv (real i) 3\<rfloor>) 25" by simp
  then have "real (10 + c * 25) \<le> fadd 10 (fmul (of_int \<lfloor>fdiv (real i) 3\<rfloor>) 25)"
    unfolding fadd_def by (rule toDouble_at_least [OF _ a])
  then have "real (10 + c * 25) \<le> fadd 10 (fmul (of_int \<lfloor>fdiv (real i) 3\<rfloor>) 25) + j"
    using assms(3) by linarith
  then show ?thesis
    unfolding fadd_def [of _ j] by (rule toDouble_at_least [OF _ a])
qed

lemma position_x_range:
  assumes "unit_interval random" and "i < length ps"
  shows "real (10 + i mod 3 * 30) \<le> position_x (productsWithPositions clock random ps ! i)"
    and "position_x (productsWithPositions clock random ps ! i) \<le> real (20 + i mod 3 * 30)"
proof -
  note j = jitter_range [OF assms(1), of i]
  have h: "20 + i mod 3 * 30 < 2 ^ 53" using mod3_cases [of i] by auto
  have lo: "real (10 + i mod 3 * 30) \<le> 10 + real (i mod 3) * 30 + jitter_x random i"
    and hi: "10 + real (i mod 3) * 30 + jitter_x random i \<le> real (20 + i mod 3 * 30)"
    using j(1,2) by simp_all
  show "real (10 + i mod 3 * 30) \<le> position_x (productsWithPositions clock random ps ! i)"
    unfolding position_x_eq [OF assms(2)] by (rule toDouble_between(1) [OF lo hi h])
  show "position_x (productsWithPositions clock random ps ! i) \<le> real (20 + i mod 3 * 30)"
    unfolding position_x_eq [OF assms(2)] by (rule toDouble_between(2) [OF lo hi h])
qed

lemma position_y_range:
  assumes "unit_interval random" and "i < length ps" and "i < 2 ^ 32"
  shows "real (10 + i div 3 * 25) \<le> position_y (productsWithPositions clock random ps ! i)"
    and "position_y (productsWithPositions clock random ps ! i) \<le> real (20 + i div 3 * 25)"
proof -
  note j = jitter_range [OF assms(1), of i]
  have "i div 3 < 2 ^ 32" using assms(3) by simp
  then have "i div 3 * 25 < 2 ^ 32 * 25" by simp
  then have h: "20 + i div 3 * 25 < 2 ^ 53" by simp
  have lo: "real (10 + i div 3 * 25) \<le> 10 + real (i div 3) * 25 + jitter_y random i"
    and hi: "10 + real (i div 3) * 25 + jitter_y random i \<le> real (20 + i div 3 * 25)"
    using j(3,4) by simp_all
  show "real (10 + i div 3 * 25) \<le> position_y (productsWithPositions clock random ps ! i)"
    unfolding position_y_eq [OF assms(2,3)] by (rule toDouble_between(1) [OF lo hi h])
  show "position_y (productsWithPositions clock random ps ! i) \<le> real (20 + i div 3 * 25)"
    unfolding position_y_eq [OF assms(2,3)] by (rule toDouble_between(2) [OF lo hi h])
qed





text \<open>
  C9, as amended. Every product is placed with \<open>10 \<le> x \<le> 80\<close> and \<open>10 \<le> y\<close>; for the
  indices below 12 also \<open>y \<le> 95\<close>, so both coordinates lie in \<open>[0, 100]\<close>; from index 12 on
  \<open>y\<close> is at least 110, beyond the viewport.
\<close>

theorem overlay_position_bounds:
  assumes "unit_interval random" and "i < length ps"
  shows "10 \<le> position_x (productsWithPositions clock random ps ! i)
       \<and> position_x (productsWithPositions clock random ps ! i) \<le> 80
       \<and> 10 \<le> position_y (productsWithPositions clock random ps ! i)
       \<and> (i < 12 \<longrightarrow> position_y (productsWithPositions clock random ps ! i) \<le> 95)
       \<and> (12 \<le> i \<longrightarrow> 110 \<le> position_y (productsWithPositions clock random ps ! i))"
proof -
  let ?sp = "productsWithPositions clock random ps ! i"
  note j = jitter_range [OF assms(1), of i]
  note xr = position_x_range [OF assms(1,2), of clock]
  have m: "i mod 3 \<le> 2" by presburger
  have x_lo: "10 \<le> position_x ?sp" using xr(1) by simp
  have "real (20 + i mod 3 * 30) \<le> 80" using m by simp
  then have x_hi: "position_x ?sp \<le> 80" using xr(2) by linarith
  have yv: "position_y ?sp
      = fadd (fadd 10 (fmul (of_int \<lfloor>fdiv (real i) 3\<rfloor>) 25)) (jitter_y random i)"
    using assms(2) by (simp add: nth_productsWithPositions withPosition_def)
  have y_lo: "10 \<le> position_y ?sp"
    unfolding yv using row_at_least [of 0 i "jitter_y random i"] j(3) by simp
  have y_in: "i < 12 \<longrightarrow> position_y ?sp \<le> 95"
  proof
    assume a: "i < 12"
    then have i: "i < 2 ^ 32" by simp
    have "i div 3 \<le> 3" using a by presburger
    then have "real (20 + i div 3 * 25) \<le> 95" by simp
    then show "position_y ?sp \<le> 95"
      using position_y_range(2) [OF assms(1,2) i, of clock] by linarith
  qed
  have y_out: "12 \<le> i \<longrightarrow> 110 \<le> position_y ?sp"
  proof
    assume "12 \<le> i"
    then have "real 4 \<le> real i / 3" by simp
    then show "110 \<le> position_y ?sp"
      unfolding yv using row_at_least [of 4 i "jitter_y random i"] j(3) by simp
  qed
  show ?thesis using x_lo x_hi y_lo y_in y_out by blast
qed

theorem overlay_position_bounds_witness:
  "position_x (productsWithPositions (\<lambda>k. 1700000000000) (\<lambda>k. 1 / 2)
        (replicate 13 sample_product) ! 11) \<le> 80
   \<and> position_y (productsWithPositions (\<lambda>k. 1700000000000) (\<lambda>k. 1 / 2)
        (replicate 13 sample_product) ! 11) \<le> 95
   \<and> 110 \<le> position_y (productsWithPositions (\<lambda>k. 1700000000000) (\<lambda>k. 1 / 2)
        (replicate 13 sample_product) ! 12)"
proof -
  have l11: "11 < length (replicate 13 sample_product)"
    and l12: "12 < length (replicate 13 sample_product)" by simp_all
  show ?thesis
    using overlay_position_bounds [OF unit_interval_const l11, of "\<lambda>k. 1700000000000"]
          overlay_position_bounds [OF unit_interval_const l12, of "\<lambda>k. 1700000000000"]
    by simp
qed

text \<open>
  C9 as stated fails: with thirteen products and every draw equal to \<open>1 / 2\<close>, the product
  at index 12 gets \<open>y = 115\<close>.
\<close>

theorem overlay_position_above_100:
  "\<not> position_y (productsWithPositions (\<lambda>k. 1700000000000) (\<lambda>k. 1 / 2)
        (replicate 13 sample_product) ! 12) \<le> 100"
proof -
  have l: "12 < length (replicate 13 sample_product)"
    and i: "(12::nat) < 2 ^ 32" by simp_all
  have "toDouble 5 = 5" and "toDouble 115 = 115" by (simp_all add: toDouble_numeral)
  then have "position_y (productsWithPositions (\<lambda>k. 1700000000000) (\<lambda>k. 1 / 2)
        (replicate 13 sample_product) ! 12) = 115"
    using position_y_eq [OF l i, of "\<lambda>k. 1700000000000" "\<lambda>k. 1 / 2"]
    by (simp add: jitter_y_def fmul_def)
  then show ?thesis by simp
qed
section \<open>Properties of the scan-products function\<close>

lemma js_literals: "js [] = []" "js (c # cs) = of_char c # js cs"
  by (simp_all add: js_def)

lemma sample_parse_not_an_array: "sample_parse (js ''not an array'') = None"
  by (simp add: sample_parse_def js_literals)


lemma mapThrowing_append:
  "mapThrowing f (xs @ ys) =
     (case mapThrowing f xs of
        Inl e \<Rightarrow> Inl e
      | Inr ps \<Rightarrow> (case mapThrowing f ys of Inl e \<Rightarrow> Inl e | Inr qs \<Rightarrow> Inr (ps @ qs)))"
  by (induction xs) (auto split: sum.splits)

lemma enhance_append:
  "enhance plat (xs @ ys) =
     (case enhance plat xs of
        Inl e \<Rightarrow> Inl e
      | Inr ps \<Rightarrow> (case enhance plat ys of Inl e \<Rightarrow> Inl e | Inr qs \<Rightarrow> Inr (ps @ qs)))"
  unfolding enhance_def filter_append mapThrowing_append ..

lemma enhance_Cons:
  "enhance plat (p # rest) =
     (if isCandidate p
      then (case toProduct plat p of
              Inl e \<Rightarrow> Inl e
            | Inr x \<Rightarrow> (case enhance plat rest of Inl e \<Rightarrow> Inl e | Inr xs \<Rightarrow> Inr (x # xs)))
      else enhance plat rest)"
  by (simp add: enhance_def split: sum.splits)

lemma isCandidate_iff:
  "isCandidate p \<longleftrightarrow>
     (\<exists>kvs. p = JObj kvs \<and> map_of kvs (js ''name'') \<noteq> None \<and> map_of kvs (js ''category'') \<noteq> None)"
  by (cases p) (auto simp: isCandidate_def typeof_object_def)


lemma enhance_single:
  "enhance plat [p] = (if isCandidate p then map_sum id (\<lambda>x. [x]) (toProduct plat p) else Inr [])"
  by (simp add: enhance_def split: sum.splits)



lemma encode_sample:
  "encodeURIComponent (js ''Black leather crossbody bag'') = Inr (js ''Black%20leather%20crossbody%20bag'')"
  by (simp add: js_literals uriUnescaped_def prepend_def escape_def utf8_def percent_def hexDigit_def)

lemma js_eq_iff: "js a = js b \<longleftrightarrow> a = b"
  by (simp add: js_def inj_map_eq_map inj_def)

lemma clean_one_product:
  \<open>cleanContent (js ''[{"name":"Black leather crossbody bag","category":"Fashion"}]'')
     = js ''[{"name":"Black leather crossbody bag","category":"Fashion"}]''\<close>
  by (simp add: cleanContent_def trim_def jsWhiteSpace_def startsWith_def js_literals)

lemma parse_one_product:
  \<open>parseProducts sample_platform
       (JStr (js ''[{"name":"Black leather crossbody bag","category":"Fashion"}]''))
     = (case enhance sample_platform
               [JObj [(js ''name'', JStr (js ''Black leather crossbody bag'')),
                      (js ''category'', JStr (js ''Fashion''))]] of
          Inl e \<Rightarrow> [] | Inr products \<Rightarrow> products)\<close>
  by (simp add: parseProducts_def clean_one_product sample_platform_def sample_parse_def js_eq_iff)

lemma mapThrowing_Inr_iff: "mapThrowing f xs = Inr ys \<longleftrightarrow> map f xs = map Inr ys"
proof (induction xs arbitrary: ys)
  case Nil
  then show ?case by auto
next
  case (Cons x xs)
  show ?case
  proof (cases ys)
    case Nil
    then show ?thesis by (auto split: sum.splits)
  next
    case (Cons y ys')
    then show ?thesis using Cons.IH [of ys'] by (auto split: sum.splits)
  qed
qed

lemma mapThrowing_Inr_ex:
  "(\<exists>ys. mapThrowing f xs = Inr ys) \<longleftrightarrow> (\<forall>x \<in> set xs. \<exists>y. f x = Inr y)"
  by (induction xs) (auto split: sum.splits)

lemma toProduct_Inr:
  assumes "toProduct plat p = Inr pr"
  shows "\<exists>text encoded.
           ToString plat (getProp p (js ''name'')) = Inr text
         \<and> encodeURIComponent text = Inr encoded
         \<and> pr = \<lparr> name = getProp p (js ''name''),
                  category = getProp p (js ''category''),
                  confidence = orElse (getProp p (js ''confidence'')) number_0_8,
                  searchUrl = js ''https://www.amazon.com/s?k='' @ encoded \<rparr>"
  using assms by (auto simp: toProduct_def searchUrlTemplate_def split: sum.splits)

lemma toProduct_Inr_ex:
  "(\<exists>pr. toProduct plat p = Inr pr) \<longleftrightarrow>
     (\<exists>text encoded. ToString plat (getProp p (js ''name'')) = Inr text
                    \<and> encodeURIComponent text = Inr encoded)"
  by (auto simp: toProduct_def split: sum.splits)

lemma no_confidence:
  assumes "\<not> inOp (js ''confidence'') entry"
  shows "orElse (getProp entry (js ''confidence'')) number_0_8 = number_0_8"
  using assms by (cases entry) (auto simp: orElse_def)

lemma parseProducts_array:
  assumes "JSON_parse plat (cleanContent text) = Some (JArr entries)"
  shows "parseProducts plat (JStr text)
           = (case enhance plat entries of Inl e \<Rightarrow> [] | Inr products \<Rightarrow> products)"
  using assms by (simp add: parseProducts_def)

text \<open>
  C4, as amended. Take a candidate entry of the answer, with a name and a category and no
  confidence. If the function builds the product list, the list holds the product of that
  entry: its confidence is the number 0.8 and its search URL is the fixed template
  \<^verbatim>\<open>https://www.amazon.com/s?k=\<close> followed by the URL-encoded name. The list is then
  made of the products of the candidate entries, in their order: an entry that lacks the
  name or the category is dropped and does not fail the batch. The list is built exactly
  when the name of every candidate entry can be converted to a string and URL-encoded; when
  it is not built, the product list of the reply is empty.
\<close>

theorem candidate_without_confidence:
  assumes "entry \<in> set entries"
      and "isCandidate entry"
      and "\<not> inOp (js ''confidence'') entry"
  shows "(\<forall>products. enhance plat entries = Inr products \<longrightarrow>
            (\<exists>pr \<in> set products. \<exists>text encoded.
                 toProduct plat entry = Inr pr
               \<and> name pr = getProp entry (js ''name'')
               \<and> category pr = getProp entry (js ''category'')
               \<and> confidence pr = number_0_8
               \<and> ToString plat (getProp entry (js ''name'')) = Inr text
               \<and> encodeURIComponent text = Inr encoded
               \<and> searchUrl pr = js ''https://www.amazon.com/s?k='' @ encoded)
          \<and> map Inr products = map (toProduct plat) (filter isCandidate entries))
       \<and> ((\<exists>products. enhance plat entries = Inr products) \<longleftrightarrow>
            (\<forall>c \<in> set entries. isCandidate c \<longrightarrow>
               (\<exists>text encoded. ToString plat (getProp c (js ''name'')) = Inr text
                              \<and> encodeURIComponent text = Inr encoded)))
       \<and> (\<forall>text. JSON_parse plat (cleanContent text) = Some (JArr entries) \<longrightarrow>
            parseProducts plat (JStr text)
              = (case enhance plat entries of Inl e \<Rightarrow> [] | Inr products \<Rightarrow> products))
       \<and> number_0_8 = JNum (Finite (3602879701896397 / 2 ^ 52))"
proof -
  have a: "\<forall>products. enhance plat entries = Inr products \<longrightarrow>
            (\<exists>pr \<in> set products. \<exists>text encoded.
                 toProduct plat entry = Inr pr
               \<and> name pr = getProp entry (js ''name'')
               \<and> category pr = getProp entry (js ''category'')
               \<and> confidence pr = number_0_8
               \<and> ToString plat (getProp entry (js ''name'')) = Inr text
               \<and> encodeURIComponent text = Inr encoded
               \<and> searchUrl pr = js ''https://www.amazon.com/s?k='' @ encoded)
          \<and> map Inr products = map (toProduct plat) (filter isCandidate entries)"
  proof (intro allI impI)
    fix products
    assume "enhance plat entries = Inr products"
    then have m: "map (toProduct plat) (filter isCandidate entries) = map Inr products"
      by (simp add: enhance_def mapThrowing_Inr_iff)
    have "toProduct plat entry \<in> set (map (toProduct plat) (filter isCandidate entries))"
      using assms(1,2) by simp
    then have "toProduct plat entry \<in> set (map Inr products)"
      by (simp only: m)
    then obtain pr where pr: "pr \<in> set products" "toProduct plat entry = Inr pr"
      by auto
    obtain str encoded where t: "ToString plat (getProp entry (js ''name'')) = Inr str"
        "encodeURIComponent str = Inr encoded"
        "pr = \<lparr> name = getProp entry (js ''name''),
                category = getProp entry (js ''category''),
                confidence = orElse (getProp entry (js ''confidence'')) number_0_8,
                searchUrl = js ''https://www.amazon.com/s?k='' @ encoded \<rparr>"
      using toProduct_Inr [OF pr(2)] by blast
    have "name pr = getProp entry (js ''name'')"
        "category pr = getProp entry (js ''category'')"
        "confidence pr = number_0_8"
        "searchUrl pr = js ''https://www.amazon.com/s?k='' @ encoded"
      using t(3) no_confidence [OF assms(3)] by simp_all
    then show "(\<exists>pr \<in> set products. \<exists>text encoded.
                 toProduct plat entry = Inr pr
               \<and> name pr = getProp entry (js ''name'')
               \<and> category pr = getProp entry (js ''category'')
               \<and> confidence pr = number_0_8
               \<and> ToString plat (getProp entry (js ''name'')) = Inr text
               \<and> encodeURIComponent text = Inr encoded
               \<and> searchUrl pr = js ''https://www.amazon.com/s?k='' @ encoded)
          \<and> map Inr products = map (toProduct plat) (filter isCandidate entries)"
      using pr t(1,2) m by auto
  qed
  have b: "(\<exists>products. enhance plat entries = Inr products) \<longleftrightarrow>
            (\<forall>c \<in> set entries. isCandidate c \<longrightarrow>
               (\<exists>text encoded. ToString plat (getProp c (js ''name'')) = Inr text
                              \<and> encodeURIComponent text = Inr encoded))"
    unfolding enhance_def mapThrowing_Inr_ex toProduct_Inr_ex by auto
  have c: "\<forall>text. JSON_parse plat (cleanContent text) = Some (JArr entries) \<longrightarrow>
            parseProducts plat (JStr text)
              = (case enhance plat entries of Inl e \<Rightarrow> [] | Inr products \<Rightarrow> products)"
    using parseProducts_array by blast
  have d: "number_0_8 = JNum (Finite (3602879701896397 / 2 ^ 52))"
    by (simp add: number_0_8_def)
  show ?thesis
    by (intro conjI a b c d)
qed

theorem candidate_without_confidence_witness:
  \<open>enhance sample_platform
     [JObj [(js ''name'', JStr (js ''Black leather crossbody bag''))],
      JObj [(js ''name'', JStr (js ''Black leather crossbody bag'')),
            (js ''category'', JStr (js ''Fashion''))]]
     = Inr [\<lparr> name = JStr (js ''Black leather crossbody bag''), category = JStr (js ''Fashion''),
              confidence = JNum (Finite (3602879701896397 / 2 ^ 52)),
              searchUrl = js ''https://www.amazon.com/s?k=Black%20leather%20crossbody%20bag'' \<rparr>]
   \<and> parseProducts sample_platform
       (JStr (js ''[{"name":"Black leather crossbody bag","category":"Fashion"}]''))
     = [\<lparr> name = JStr (js ''Black leather crossbody bag''), category = JStr (js ''Fashion''),
          confidence = JNum (Finite (3602879701896397 / 2 ^ 52)),
          searchUrl = js ''https://www.amazon.com/s?k=Black%20leather%20crossbody%20bag'' \<rparr>]\<close>
proof -
  let ?good = "JObj [(js ''name'', JStr (js ''Black leather crossbody bag'')),
                     (js ''category'', JStr (js ''Fashion''))]"
  let ?incomplete = "JObj [(js ''name'', JStr (js ''Black leather crossbody bag''))]"
  let ?p = "\<lparr> name = JStr (js ''Black leather crossbody bag''), category = JStr (js ''Fashion''),
              confidence = JNum (Finite (3602879701896397 / 2 ^ 52)),
              searchUrl = js ''https://www.amazon.com/s?k=Black%20leather%20crossbody%20bag'' \<rparr>"
  have m1: "?good \<in> set [?incomplete, ?good]" and m2: "?good \<in> set [?good]"
    by simp_all
  have c: "isCandidate ?good"
    by (simp add: isCandidate_iff js_literals)
  have i: "\<not> isCandidate ?incomplete"
    by (simp add: isCandidate_iff js_literals)
  have f: "\<not> inOp (js ''confidence'') ?good"
    by (simp add: js_literals)
  have s: "ToString sample_platform (getProp ?good (js ''name''))
             = Inr (js ''Black leather crossbody bag'')"
    by (simp add: ToString_def)
  have u: "js ''https://www.amazon.com/s?k='' @ js ''Black%20leather%20crossbody%20bag''
             = js ''https://www.amazon.com/s?k=Black%20leather%20crossbody%20bag''"
    by (simp add: js_def)
  have t: "toProduct sample_platform ?good = Inr ?p"
    by (simp add: toProduct_def ToString_def encode_sample searchUrlTemplate_def u js_eq_iff
          orElse_def number_0_8_def)
  have all: "\<forall>c \<in> set [?incomplete, ?good]. isCandidate c \<longrightarrow>
               (\<exists>text encoded. ToString sample_platform (getProp c (js ''name'')) = Inr text
                              \<and> encodeURIComponent text = Inr encoded)"
    using i s encode_sample by auto
  have one: "\<forall>c \<in> set [?good]. isCandidate c \<longrightarrow>
               (\<exists>text encoded. ToString sample_platform (getProp c (js ''name'')) = Inr text
                              \<and> encodeURIComponent text = Inr encoded)"
    using s encode_sample by auto
  note two = candidate_without_confidence [OF m1 c f, of sample_platform]
  note single = candidate_without_confidence [OF m2 c f, of sample_platform]
  obtain products where e: "enhance sample_platform [?incomplete, ?good] = Inr products"
    using two all by blast
  then have "map Inr products = map (toProduct sample_platform) (filter isCandidate [?incomplete, ?good])"
    using two by blast
  then have "map Inr products = [Inr ?p :: js_error + product]"
    using c i t by simp
  then have p2: "products = [?p]"
    by (auto simp: map_eq_Cons_conv)
  obtain products' where e': "enhance sample_platform [?good] = Inr products'"
    using single one by blast
  then have "map Inr products' = map (toProduct sample_platform) (filter isCandidate [?good])"
    using single by blast
  then have "map Inr products' = [Inr ?p :: js_error + product]"
    using c t by simp
  then have p1: "products' = [?p]"
    by (auto simp: map_eq_Cons_conv)
  show ?thesis
    using e p2 e' p1 by (simp add: parse_one_product)
qed

text \<open>
  C4 as stated fails. The second entry of this answer has a name and a category and no
  confidence, and its name is an unpaired surrogate: \<^verbatim>\<open>encodeURIComponent\<close> throws
  \<^verbatim>\<open>URIError\<close>, the \<^verbatim>\<open>catch\<close> sets \<^verbatim>\<open>products = []\<close>, and the product of the
  first entry, which the function builds when that entry is alone, is lost with it.
\<close>

theorem unencodable_name_empties_batch:
  \<open>isCandidate (JObj [(js ''name'', JStr [0xD800]), (js ''category'', JStr (js ''Fashion''))])
   \<and> \<not> inOp (js ''confidence'')
         (JObj [(js ''name'', JStr [0xD800]), (js ''category'', JStr (js ''Fashion''))])
   \<and> toProduct surrogate_platform
        (JObj [(js ''name'', JStr [0xD800]), (js ''category'', JStr (js ''Fashion''))])
       = Inl URIError
   \<and> enhance surrogate_platform
        [JObj [(js ''name'', JStr (js ''Black leather crossbody bag'')),
               (js ''category'', JStr (js ''Fashion''))],
         JObj [(js ''name'', JStr [0xD800]), (js ''category'', JStr (js ''Fashion''))]]
       = Inl URIError
   \<and> parseProducts surrogate_platform (JStr surrogate_answer) = []
   \<and> enhance surrogate_platform
        [JObj [(js ''name'', JStr (js ''Black leather crossbody bag'')),
               (js ''category'', JStr (js ''Fashion''))]]
       = Inr [\<lparr> name = JStr (js ''Black leather crossbody bag''),
                category = JStr (js ''Fashion''),
                confidence = JNum (Finite (3602879701896397 / 2 ^ 52)),
                searchUrl = js ''https://www.amazon.com/s?k=Black%20leather%20crossbody%20bag'' \<rparr>]\<close>
proof -
  let ?good = "JObj [(js ''name'', JStr (js ''Black leather crossbody bag'')),
                     (js ''category'', JStr (js ''Fashion''))]"
  let ?bad = "JObj [(js ''name'', JStr [0xD800]), (js ''category'', JStr (js ''Fashion''))]"
  let ?p = "\<lparr> name = JStr (js ''Black leather crossbody bag''), category = JStr (js ''Fashion''),
              confidence = JNum (Finite (3602879701896397 / 2 ^ 52)),
              searchUrl = js ''https://www.amazon.com/s?k=Black%20leather%20crossbody%20bag'' \<rparr>"
  have cg: "isCandidate ?good" and cb: "isCandidate ?bad"
    by (simp_all add: isCandidate_iff js_literals)
  have fb: "\<not> inOp (js ''confidence'') ?bad" and fg: "\<not> inOp (js ''confidence'') ?good"
    by (simp_all add: js_literals)
  have u: "js ''https://www.amazon.com/s?k='' @ js ''Black%20leather%20crossbody%20bag''
             = js ''https://www.amazon.com/s?k=Black%20leather%20crossbody%20bag''"
    by (simp add: js_def)
  have tg: "toProduct surrogate_platform ?good = Inr ?p"
    by (simp add: toProduct_def ToString_def encode_sample searchUrlTemplate_def u js_eq_iff
          orElse_def number_0_8_def)
  have tb: "toProduct surrogate_platform ?bad = Inl URIError"
    by (simp add: toProduct_def ToString_def uriUnescaped_def)
  have both: "enhance surrogate_platform [?good, ?bad] = Inl URIError"
    by (simp add: enhance_Cons cg cb tg tb)
  have alone: "enhance surrogate_platform [?good] = Inr [?p]"
    by (simp add: enhance_single cg tg)
  have cl: "cleanContent surrogate_answer = surrogate_answer"
    by (simp add: surrogate_answer_def cleanContent_def trim_def jsWhiteSpace_def startsWith_def
          js_literals)
  have "JSON_parse surrogate_platform (cleanContent surrogate_answer) = Some (JArr [?good, ?bad])"
    by (simp add: cl surrogate_platform_def surrogate_parse_def)
  then have pp: "parseProducts surrogate_platform (JStr surrogate_answer) = []"
    by (simp add: parseProducts_array both)
  show ?thesis
    by (intro conjI cb fb tb both pp alone)
qed



lemma serve_checked:
  assumes "passesChecks key req"
  shows "serve plat key gateway req =
           (case gateway 0 of
              FetchRejected e \<Rightarrow> \<lparr> reply = caught plat e, fetches = 1 \<rparr>
            | FetchResolved r \<Rightarrow> \<lparr> reply = onReply plat r, fetches = 1 \<rparr>)"
  using assms by (auto simp: passesChecks_def serve_def split: sum.splits)

lemma serve_fetches_le_1: "fetches (serve plat key gateway req) \<le> 1"
  by (simp add: serve_def split: sum.splits fetch_result.splits)

lemma onReply_not_ok:
  assumes "\<not> ok (ai_status r)"
  shows "onReply plat r =
           (if ai_status r = 429 then
              \<lparr> status = 429, body = ErrorBody (js ''Rate limit exceeded. Please try again in a moment.'') \<rparr>
            else if ai_status r = 402 then
              \<lparr> status = 402, body = ErrorBody (js ''AI usage limit reached. Please upgrade your plan.'') \<rparr>
            else
              \<lparr> status = 500, body = ErrorBody (js ''AI API error: '' @ decimal (ai_status r)) \<rparr>)"
  using assms
  by (simp add: onReply_def caught_def error_message_def aiApiErrorMessage_def
      rateLimitMessage_def usageLimitMessage_def)

lemma onReply_not_ok_status:
  assumes "\<not> ok (ai_status r)"
  shows "\<not> ok (status (onReply plat r))"
  using assms by (simp add: onReply_not_ok ok_def)

lemma resolve_error:
  assumes "inFlight s = request # others"
  shows "step (InvokeResolves clock random (InvokeError m)) s =
           s\<lparr> inFlight := others, toasts := toasts s @ [scanFailed m], isScanning := False \<rparr>"
  using assms by (simp add: afterInvoke_def)

lemma resolve_no_products:
  assumes "inFlight s = request # others"
  shows "step (InvokeResolves clock random (InvokeData (Some []))) s =
           s\<lparr> inFlight := others, toasts := toasts s @ [noProductsFound], isScanning := False \<rparr>"
  using assms by (simp add: afterInvoke_def)

lemma non_success_reply:
  assumes "passesChecks key req"
      and "gateway 0 = FetchResolved r"
      and "\<not> ok (ai_status r)"
      and "inFlight s = request # others"
  shows "fetches (serve plat key gateway req) = 1
       \<and> reply (serve plat key gateway req) =
           (if ai_status r = 429 then
              \<lparr> status = 429, body = ErrorBody (js ''Rate limit exceeded. Please try again in a moment.'') \<rparr>
            else if ai_status r = 402 then
              \<lparr> status = 402, body = ErrorBody (js ''AI usage limit reached. Please upgrade your plan.'') \<rparr>
            else
              \<lparr> status = 500, body = ErrorBody (js ''AI API error: '' @ decimal (ai_status r)) \<rparr>)
       \<and> step (InvokeResolves clock random
                 (invokeResult httpErrorMessage (reply (serve plat key gateway req)))) s
           = s\<lparr> inFlight := others, toasts := toasts s @ [scanFailed httpErrorMessage],
                isScanning := False \<rparr>
       \<and> toast_title (scanFailed httpErrorMessage) = js ''Scan failed''
       \<and> destructive (scanFailed httpErrorMessage)"
proof -
  have s: "serve plat key gateway req = \<lparr> reply = onReply plat r, fetches = 1 \<rparr>"
    using serve_checked [OF assms(1), of plat gateway] assms(2) by simp
  have i: "invokeResult httpErrorMessage (onReply plat r) = InvokeError httpErrorMessage"
    using onReply_not_ok_status [OF assms(3), of plat] by (simp add: invokeResult_def)
  show ?thesis
    using s i onReply_not_ok [OF assms(3), of plat] resolve_error [OF assms(4)]
    by (simp add: scanFailed_def)
qed

lemma parseProducts_not_array:
  assumes "\<forall>text entries. content = JStr text \<longrightarrow> JSON_parse plat (cleanContent text) \<noteq> Some (JArr entries)"
  shows "parseProducts plat content = []"
  using assms by (auto simp: parseProducts_def split: jsval.splits option.splits)

text \<open>
  C6. When the model's answer does not parse as an array (\<^verbatim>\<open>JSON.parse\<close> throws, or
  yields something that is not an array, or the content is not a string at all), the product
  list is empty and the function replies with status 200 and \<^verbatim>\<open>{ products: [] }\<close>. On
  the page, the scan then ends with the \<^verbatim>\<open>No products found\<close> toast, which is not
  destructive, and not with \<^verbatim>\<open>Scan failed\<close>.
\<close>

theorem answer_not_an_array:
  assumes "passesChecks key req"
      and "gateway 0 = FetchResolved r"
      and "ok (ai_status r)"
      and "JSON_parse plat (ai_body r) = Some aiResponse"
      and "contentOf aiResponse = Inr answer"
      and "\<forall>text entries. answer = JStr text
             \<longrightarrow> JSON_parse plat (cleanContent text) \<noteq> Some (JArr entries)"
      and "inFlight s = request # others"
  shows "parseProducts plat answer = []
       \<and> reply (serve plat key gateway req) = \<lparr> status = 200, body = ProductsBody [] \<rparr>
       \<and> step (InvokeResolves clock random
                 (invokeResult httpErrorMessage (reply (serve plat key gateway req)))) s
           = s\<lparr> inFlight := others, toasts := toasts s @ [noProductsFound], isScanning := False \<rparr>
       \<and> toast_title noProductsFound = js ''No products found''
       \<and> \<not> destructive noProductsFound"
proof -
  have p: "parseProducts plat answer = []"
    using parseProducts_not_array [OF assms(6)] .
  have s: "serve plat key gateway req = \<lparr> reply = onReply plat r, fetches = 1 \<rparr>"
    using serve_checked [OF assms(1), of plat gateway] assms(2) by simp
  have o: "onReply plat r = \<lparr> status = 200, body = ProductsBody [] \<rparr>"
    using assms(3,4,5) p by (simp add: onReply_def)
  have i: "invokeResult httpErrorMessage (onReply plat r) = InvokeData (Some [])"
    by (simp add: o invokeResult_def ok_def)
  show ?thesis
    using p s o i resolve_no_products [OF assms(7)]
    by (simp add: noProductsFound_def)
qed


lemma extract_video_A: "extractYoutubeId (js ''https://youtu.be/dQw4w9WgXcQ'') = Some (js ''dQw4w9WgXcQ'')"
  by (simp add: extractYoutubeId_def patterns_def literalThenId_def watchWithParams_def
      startsWith_def capture11_def idChar_def lineTerminator_def js_literals)

lemma scanning_A_eq:
  "scanning_A =
     (mounted (js ''A''))
       \<lparr> video := Some video_A, loading := False, isScanning := True,
         inFlight := [\<lparr> imageData = js ''https://img.youtube.com/vi/dQw4w9WgXcQ/maxresdefault.jpg'',
                        videoId = js ''A'', isUrl = True \<rparr>],
         rendered :=
           \<lparr> shown_id = js ''A'', shown_video = Some video_A, shown_loading = False,
             shown_isPlaying = False, shown_isScanning = False \<rparr> \<rparr>"
  by (simp add: scanning_A_def mounted_def commit_def scanButtonEnabled_def isYoutubeVideo_def
      video_A_def scanProducts_def pauseFirst_def takeImage_def extract_video_A dispatch_def)
     (simp add: getYoutubeThumbnail_def dispatch_def isYoutubeVideo_def js_literals)

lemma scanning_A_inFlight:
  "inFlight scanning_A =
     \<lparr> imageData = js ''https://img.youtube.com/vi/dQw4w9WgXcQ/maxresdefault.jpg'',
       videoId = js ''A'', isUrl = True \<rparr> # []"
  by (simp add: scanning_A_eq)

lemma sample_request_passes: "passesChecks (Some (js ''key'')) sample_request"
  by (simp add: passesChecks_def sample_request_def nullish_def js_literals)

text \<open>
  C5. The function tells the three cases apart in its reply: status 429 with the rate-limit
  message, status 402 with the usage-limit message, status 500 with
  \<^verbatim>\<open>AI API error: <status>\<close> for any other status, and makes no second \<^verbatim>\<open>fetch\<close>.
  The page does not: \<^verbatim>\<open>invoke\<close> turns every reply outside 200 to 299 into an
  \<^verbatim>\<open>error\<close> whose message is the library's, the reply body is not read, and the scan
  ends with the same \<^verbatim>\<open>Scan failed\<close> toast and the same state for 429, for 402 and
  for 503. The message of the library is here the one of supabase-js.
\<close>

theorem failure_toast_same_for_every_status:
  "reply (serve sample_platform (Some (js ''key''))
            (\<lambda>k. FetchResolved \<lparr> ai_status = 429, ai_body = [] \<rparr>) sample_request)
     = \<lparr> status = 429, body = ErrorBody (js ''Rate limit exceeded. Please try again in a moment.'') \<rparr>
   \<and> reply (serve sample_platform (Some (js ''key''))
            (\<lambda>k. FetchResolved \<lparr> ai_status = 402, ai_body = [] \<rparr>) sample_request)
     = \<lparr> status = 402, body = ErrorBody (js ''AI usage limit reached. Please upgrade your plan.'') \<rparr>
   \<and> reply (serve sample_platform (Some (js ''key''))
            (\<lambda>k. FetchResolved \<lparr> ai_status = 503, ai_body = [] \<rparr>) sample_request)
     = \<lparr> status = 500, body = ErrorBody (js ''AI API error: 503'') \<rparr>
   \<and> step (InvokeResolves (\<lambda>k. 1700000000000) (\<lambda>k. 1 / 2)
        (invokeResult (js ''Edge Function returned a non-2xx status code'')
           (reply (serve sample_platform (Some (js ''key''))
              (\<lambda>k. FetchResolved \<lparr> ai_status = 429, ai_body = [] \<rparr>) sample_request))))
        scanning_A
     = scanning_A
         \<lparr> inFlight := [],
           toasts := [scanFailed (js ''Edge Function returned a non-2xx status code'')],
           isScanning := False \<rparr>
   \<and> step (InvokeResolves (\<lambda>k. 1700000000000) (\<lambda>k. 1 / 2)
        (invokeResult (js ''Edge Function returned a non-2xx status code'')
           (reply (serve sample_platform (Some (js ''key''))
              (\<lambda>k. FetchResolved \<lparr> ai_status = 402, ai_body = [] \<rparr>) sample_request))))
        scanning_A
     = scanning_A
         \<lparr> inFlight := [],
           toasts := [scanFailed (js ''Edge Function returned a non-2xx status code'')],
           isScanning := False \<rparr>
   \<and> step (InvokeResolves (\<lambda>k. 1700000000000) (\<lambda>k. 1 / 2)
        (invokeResult (js ''Edge Function returned a non-2xx status code'')
           (reply (serve sample_platform (Some (js ''key''))
              (\<lambda>k. FetchResolved \<lparr> ai_status = 503, ai_body = [] \<rparr>) sample_request))))
        scanning_A
     = scanning_A
         \<lparr> inFlight := [],
           toasts := [scanFailed (js ''Edge Function returned a non-2xx status code'')],
           isScanning := False \<rparr>
   \<and> scanFailed (js ''Edge Function returned a non-2xx status code'')
     = \<lparr> toast_title = js ''Scan failed'',
         toast_description = js ''Edge Function returned a non-2xx status code'',
         destructive = True \<rparr>"
proof -
  have g: "\<And>st. (\<lambda>k::nat. FetchResolved \<lparr> ai_status = st, ai_body = [] \<rparr>) 0
             = FetchResolved \<lparr> ai_status = st, ai_body = [] \<rparr>"
    by simp
  have n429: "\<not> ok (ai_status \<lparr> ai_status = 429, ai_body = [] \<rparr>)"
    and n402: "\<not> ok (ai_status \<lparr> ai_status = 402, ai_body = [] \<rparr>)"
    and n503: "\<not> ok (ai_status \<lparr> ai_status = 503, ai_body = [] \<rparr>)"
    by (simp_all add: ok_def)
  have t: "toasts scanning_A = []"
    by (simp add: scanning_A_eq mounted_def)
  have m: "scanFailed (js ''Edge Function returned a non-2xx status code'')
     = \<lparr> toast_title = js ''Scan failed'',
         toast_description = js ''Edge Function returned a non-2xx status code'',
         destructive = True \<rparr>"
    by (simp add: scanFailed_def js_literals)
  show ?thesis
    using non_success_reply [OF sample_request_passes g n429 scanning_A_inFlight,
            of sample_platform "\<lambda>k. 1700000000000" "\<lambda>k. 1 / 2"
               "js ''Edge Function returned a non-2xx status code''"]
          non_success_reply [OF sample_request_passes g n402 scanning_A_inFlight,
            of sample_platform "\<lambda>k. 1700000000000" "\<lambda>k. 1 / 2"
               "js ''Edge Function returned a non-2xx status code''"]
          non_success_reply [OF sample_request_passes g n503 scanning_A_inFlight,
            of sample_platform "\<lambda>k. 1700000000000" "\<lambda>k. 1 / 2"
               "js ''Edge Function returned a non-2xx status code''"]
          m
    by (auto simp add: t decimal.simps js_literals simp del: step.simps)
qed

lemma clean_not_an_array: "cleanContent (js ''not an array'') = js ''not an array''"
  by (simp add: cleanContent_def trim_def jsWhiteSpace_def startsWith_def js_literals)

theorem answer_not_an_array_witness:
  \<open>reply (serve sample_platform (Some (js ''key''))
            (\<lambda>k. FetchResolved
               \<lparr> ai_status = 200,
                 ai_body = js ''{"choices":[{"message":{"content":"not an array"}}]}'' \<rparr>)
            sample_request)
     = \<lparr> status = 200, body = ProductsBody [] \<rparr>
   \<and> step (InvokeResolves (\<lambda>k. 1700000000000) (\<lambda>k. 1 / 2)
        (invokeResult (js ''Edge Function returned a non-2xx status code'')
           (reply (serve sample_platform (Some (js ''key''))
              (\<lambda>k. FetchResolved
                 \<lparr> ai_status = 200,
                   ai_body = js ''{"choices":[{"message":{"content":"not an array"}}]}'' \<rparr>)
              sample_request))))
        scanning_A
     = scanning_A \<lparr> inFlight := [], toasts := [noProductsFound], isScanning := False \<rparr>\<close>
proof -
  let ?r = \<open>\<lparr> ai_status = 200,
               ai_body = js ''{"choices":[{"message":{"content":"not an array"}}]}'' \<rparr>\<close>
  let ?ai = "JObj [(js ''choices'',
                   JArr [JObj [(js ''message'',
                     JObj [(js ''content'', JStr (js ''not an array''))])]])]"
  have g: "(\<lambda>k::nat. FetchResolved ?r) 0 = FetchResolved ?r"
    by simp
  have k: "ok (ai_status ?r)"
    by (simp add: ok_def)
  have p: "JSON_parse sample_platform (ai_body ?r) = Some ?ai"
    by (simp add: sample_platform_def sample_parse_def)
  have c: "contentOf ?ai = Inr (JStr (js ''not an array''))"
    by (simp add: contentOf_def nullish_def orElse_def Let_def js_literals)
  have a: "\<forall>text entries. JStr (js ''not an array'') = JStr text
             \<longrightarrow> JSON_parse sample_platform (cleanContent text) \<noteq> Some (JArr entries)"
    by (simp add: clean_not_an_array sample_platform_def sample_parse_def js_eq_iff)
  have t: "toasts scanning_A = []"
    by (simp add: scanning_A_eq mounted_def)
  show ?thesis
    using answer_not_an_array [OF sample_request_passes g k p c a scanning_A_inFlight,
            of "\<lambda>k. 1700000000000" "\<lambda>k. 1 / 2"
               "js ''Edge Function returned a non-2xx status code''"]
    by (auto simp add: t simp del: step.simps)
qed

section \<open>Properties of the video player page\<close>

lemma captureFrame_pauseFirst [simp]: "captureFrame (pauseFirst s) = captureFrame s"
  by (auto simp: captureFrame_def pauseFirst_def split: option.splits)

lemma isYoutubeVideo_pauseFirst [simp]: "isYoutubeVideo (pauseFirst s) = isYoutubeVideo s"
  by (simp add: isYoutubeVideo_def pauseFirst_def)

text \<open>
  C7. For an uploaded video whose element reports zero width or zero height,
  \<open>captureFrame\<close> returns no frame; \<open>scanProducts\<close> then only pauses and shows the destructive
  \<^verbatim>\<open>Could not capture frame\<close> toast: the scanning flag is not set and no call to the
  scan-products function is made.
\<close>

theorem zero_dimensions_capture_fails:
  assumes "\<not> isYoutubeVideo s"
      and "videoRef s = Some videoEl"
      and "videoWidth videoEl = 0 \<or> videoHeight videoEl = 0"
  shows "captureFrame s = None
       \<and> scanProducts s = s\<lparr> isPlaying := False, toasts := toasts s @ [couldNotCapture] \<rparr>
       \<and> inFlight (scanProducts s) = inFlight s
       \<and> isScanning (scanProducts s) = isScanning s
       \<and> inFlight (step ClickScan s) = inFlight s
       \<and> toast_title couldNotCapture = js ''Could not capture frame''
       \<and> destructive couldNotCapture"
proof -
  have c: "captureFrame s = None"
    using assms(2,3) by (auto simp: captureFrame_def split: option.splits)
  have p: "pauseFirst s = s\<lparr>isPlaying := False\<rparr>"
    using assms(1,2) by (simp add: pauseFirst_def)
  have t: "takeImage (pauseFirst s) = None"
    using assms(1) c by (simp add: takeImage_def)
  have sp: "scanProducts s = s\<lparr> isPlaying := False, toasts := toasts s @ [couldNotCapture] \<rparr>"
    using t by (simp add: scanProducts_def p)
  show ?thesis
    using c sp by (simp add: couldNotCapture_def)
qed

theorem zero_dimensions_capture_fails_witness:
  "captureFrame undecoded_C = None
   \<and> scanProducts undecoded_C = undecoded_C \<lparr> isPlaying := False, toasts := [couldNotCapture] \<rparr>
   \<and> inFlight (step ClickScan undecoded_C) = []"
proof -
  have y: "\<not> isYoutubeVideo undecoded_C"
    by (simp add: undecoded_C_def isYoutubeVideo_def upload_C_def mounted_def commit_def
          js_literals)
  have v: "videoRef undecoded_C = Some \<lparr> videoWidth = 0, videoHeight = 0, frame = Inr (js ''data:,'') \<rparr>"
    by (simp add: undecoded_C_def commit_def)
  have z: "videoWidth \<lparr> videoWidth = 0, videoHeight = 0, frame = Inr (js ''data:,'') \<rparr> = 0
         \<or> videoHeight \<lparr> videoWidth = 0, videoHeight = 0, frame = Inr (js ''data:,'') \<rparr> = 0"
    by simp
  have e: "toasts undecoded_C = []" "inFlight undecoded_C = []"
    by (simp_all add: undecoded_C_def mounted_def commit_def)
  show ?thesis
    using zero_dimensions_capture_fails [OF y v z]
    by (auto simp add: e simp del: step.simps)
qed

lemma pauseFirst_fields [simp]:
  "inFlight (pauseFirst s) = inFlight s" "isScanning (pauseFirst s) = isScanning s"
  "toasts (pauseFirst s) = toasts s" "rendered (pauseFirst s) = rendered s"
  by (simp_all add: pauseFirst_def)

lemma scanProducts_cases:
  "scanProducts s = (pauseFirst s)\<lparr>toasts := toasts s @ [couldNotCapture]\<rparr>
   \<or> (\<exists>img. scanProducts s = dispatch img (pauseFirst s))"
  by (auto simp: scanProducts_def Let_def split: option.splits)

lemma singleFlight_scanProducts:
  assumes "singleFlight s" and "\<not> isScanning s"
  shows "singleFlight (scanProducts s)"
  using assms scanProducts_cases [of s]
  by (auto simp: singleFlight_def dispatch_def)

lemma commit_fields [simp]:
  "inFlight (commit s) = inFlight s" "isScanning (commit s) = isScanning s"
  "shown_isScanning (rendered (commit s)) = isScanning s"
  by (simp_all add: commit_def)

lemma singleFlight_commit: "singleFlight (commit s) = singleFlight s"
  by (simp add: singleFlight_def)

lemma click_while_shown_scanning:
  "shown_isScanning (rendered s) \<Longrightarrow> step ClickScan s = s"
  by (simp add: scanButtonEnabled_def)

lemma singleFlight_click_after_render:
  assumes "singleFlight s"
  shows "singleFlight (step ClickScan (step Render s))"
proof (cases "isScanning s")
  case True
  then have "step ClickScan (commit s) = commit s"
    by (intro click_while_shown_scanning) simp
  then show ?thesis using assms by (simp add: singleFlight_commit)
next
  case False
  then have "singleFlight (scanProducts (commit s))"
    using assms by (intro singleFlight_scanProducts) (simp_all add: singleFlight_commit)
  then show ?thesis using assms by (simp add: singleFlight_commit)
qed

lemma singleFlight_step:
  assumes "singleFlight s" and "e \<noteq> ClickScan"
  shows "singleFlight (step e s)"
proof (cases e)
  case ClickScan
  then show ?thesis using assms(2) by simp
next
  case (InvokeResolves clock random result)
  then show ?thesis
    using assms(1)
    by (cases "inFlight s")
       (auto simp: singleFlight_def afterInvoke_def split: invoke_result.splits option.splits)
qed (use assms(1) in \<open>simp_all add: singleFlight_def\<close>)

lemma singleFlight_run:
  "clicksFollowRender events \<Longrightarrow> singleFlight s \<Longrightarrow> singleFlight (run events s)"
proof (induction events arbitrary: s rule: clicksFollowRender.induct)
  case 1
  then show ?case by simp
next
  case (2 es)
  then show ?case by simp
next
  case (3 es)
  then show ?case
    using singleFlight_click_after_render [of s] by (simp del: step.simps)
qed (simp_all add: singleFlight_step del: step.simps)

lemma singleFlight_mounted: "singleFlight (mounted route)"
  by (simp add: singleFlight_def mounted_def)

text \<open>
  C2, as amended. When every click on the scan button comes right after the commit of a
  render, at most one call to the scan-products function is in flight in every state the
  page reaches from its mount, and one is in flight exactly while \<open>isScanning\<close> holds. A
  click on the button of a render that has \<open>isScanning\<close> set changes nothing; so when a
  first click has made a call and the page has been rendered, a second click is a no-op and
  exactly one call is in flight.
\<close>

theorem one_request_in_flight:
  assumes "clicksFollowRender events"
  shows "length (inFlight (run events (mounted route))) \<le> 1
   \<and> (isScanning (run events (mounted route)) \<longleftrightarrow> inFlight (run events (mounted route)) \<noteq> [])
   \<and> (shown_isScanning (rendered (run events (mounted route)))
        \<longrightarrow> \<not> scanButtonEnabled (run events (mounted route))
          \<and> step ClickScan (run events (mounted route)) = run events (mounted route))
   \<and> (inFlight (run (events @ [Render, ClickScan]) (mounted route)) \<noteq> []
        \<longrightarrow> run (events @ [Render, ClickScan, Render, ClickScan]) (mounted route)
              = step Render (run (events @ [Render, ClickScan]) (mounted route))
          \<and> length (inFlight (run (events @ [Render, ClickScan, Render, ClickScan])
                (mounted route))) = 1)"
proof -
  let ?s = "run events (mounted route)"
  let ?t = "run (events @ [Render, ClickScan]) (mounted route)"
  have app: "run (xs @ ys) s = run ys (run xs s)" for xs ys s
    by (induction xs arbitrary: s) simp_all
  have i: "singleFlight ?s"
    by (rule singleFlight_run [OF assms singleFlight_mounted])
  have t: "?t = step ClickScan (step Render ?s)"
    by (simp add: app del: step.simps)
  have j: "singleFlight ?t"
    unfolding t by (rule singleFlight_click_after_render [OF i])
  have a: "shown_isScanning (rendered ?s) \<longrightarrow> \<not> scanButtonEnabled ?s \<and> step ClickScan ?s = ?s"
    by (auto simp: scanButtonEnabled_def)
  have tt: "run (events @ [Render, ClickScan, Render, ClickScan]) (mounted route)
              = step ClickScan (step Render ?t)"
    by (simp add: app del: step.simps)
  have b: "inFlight ?t \<noteq> [] \<longrightarrow>
             run (events @ [Render, ClickScan, Render, ClickScan]) (mounted route) = step Render ?t
           \<and> length (inFlight (run (events @ [Render, ClickScan, Render, ClickScan])
                 (mounted route))) = 1"
  proof
    assume n: "inFlight ?t \<noteq> []"
    then have sc: "isScanning ?t"
      using j by (simp add: singleFlight_def)
    then have "shown_isScanning (rendered (step Render ?t))" by simp
    then have eq: "step ClickScan (step Render ?t) = step Render ?t"
      by (rule click_while_shown_scanning)
    have "length (inFlight ?t) = 1"
      using j n by (cases "inFlight ?t") (simp_all add: singleFlight_def)
    then have "length (inFlight (step Render ?t)) = 1" by simp
    then show "run (events @ [Render, ClickScan, Render, ClickScan]) (mounted route) = step Render ?t
           \<and> length (inFlight (run (events @ [Render, ClickScan, Render, ClickScan])
                 (mounted route))) = 1"
      unfolding tt eq by simp
  qed
  have c: "length (inFlight ?s) \<le> 1" "isScanning ?s \<longleftrightarrow> inFlight ?s \<noteq> []"
    using i by (simp_all add: singleFlight_def)
  show ?thesis
    by (intro conjI c a b)
qed

theorem one_request_in_flight_witness:
  "length (inFlight (run [VideoFetched video_A, Render, ClickScan, Render, ClickScan]
       (mounted (js ''A'')))) = 1
   \<and> run [VideoFetched video_A, Render, ClickScan, Render, ClickScan] (mounted (js ''A''))
       = step Render (run [VideoFetched video_A, Render, ClickScan] (mounted (js ''A'')))
   \<and> isScanning (run [VideoFetched video_A, Render, ClickScan] (mounted (js ''A'')))"
proof -
  have c: "clicksFollowRender [VideoFetched video_A]"
    and c': "clicksFollowRender [VideoFetched video_A, Render, ClickScan]"
    by simp_all
  have n: "inFlight (run ([VideoFetched video_A] @ [Render, ClickScan]) (mounted (js ''A''))) \<noteq> []"
    using scanning_A_inFlight by (simp add: scanning_A_def del: step.simps run.simps)
  show ?thesis
    using n one_request_in_flight [OF c, of "js ''A''"] one_request_in_flight [OF c', of "js ''A''"]
    by (auto simp del: step.simps run.simps)
qed

text \<open>
  C2 as stated fails: \<open>scanProducts\<close> itself has no guard, and the button is disabled only
  from the next render on. Two clicks on the button of one render, with no commit in
  between, make two calls to the scan-products function.
\<close>

theorem two_clicks_before_render:
  "length (inFlight (run [VideoFetched video_A, Render, ClickScan, ClickScan]
       (mounted (js ''A'')))) = 2
   \<and> run [VideoFetched video_A, Render, ClickScan, ClickScan] (mounted (js ''A''))
       = scanProducts scanning_A
   \<and> isScanning scanning_A
   \<and> scanButtonEnabled scanning_A
   \<and> map videoId (inFlight (scanProducts scanning_A)) = [js ''A'', js ''A'']"
proof -
  have e: "scanButtonEnabled scanning_A"
    by (simp add: scanning_A_eq scanButtonEnabled_def isYoutubeVideo_def video_A_def mounted_def)
  have r: "run [VideoFetched video_A, Render, ClickScan, ClickScan] (mounted (js ''A''))
             = step ClickScan scanning_A"
    by (simp add: scanning_A_def del: step.simps)
  have s: "step ClickScan scanning_A = scanProducts scanning_A"
    using e by simp
  have y: "isYoutubeVideo scanning_A"
    by (simp add: scanning_A_eq isYoutubeVideo_def video_A_def mounted_def)
  have p: "pauseFirst scanning_A = scanning_A"
    by (simp add: pauseFirst_def scanning_A_eq mounted_def)
  have t: "takeImage scanning_A
             = Some (getYoutubeThumbnail (js ''dQw4w9WgXcQ''))"
    using y by (simp add: takeImage_def scanning_A_eq mounted_def video_A_def extract_video_A)
  have g: "getYoutubeThumbnail (js ''dQw4w9WgXcQ'') \<noteq> []"
    by (simp add: getYoutubeThumbnail_def js_literals)
  have d: "scanProducts scanning_A
             = dispatch (getYoutubeThumbnail (js ''dQw4w9WgXcQ'')) scanning_A"
    using g by (simp add: scanProducts_def p t)
  have f: "map videoId (inFlight (scanProducts scanning_A)) = [js ''A'', js ''A'']"
    unfolding d by (simp add: dispatch_def scanning_A_eq mounted_def)
  have l: "length (inFlight (scanProducts scanning_A)) = 2"
    using arg_cong [OF f, of length] by simp
  have i: "isScanning scanning_A"
    by (simp add: scanning_A_eq)
  show ?thesis
    unfolding r s by (intro conjI l refl i e f)
qed





lemma resolve_ignores_render:
  "step (InvokeResolves clock random result) (s\<lparr> rendered := r \<rparr>)
     = (step (InvokeResolves clock random result) s)\<lparr> rendered := r \<rparr>"
  by (cases "inFlight s")
     (auto simp: afterInvoke_def split: invoke_result.splits option.splits)





section \<open>Properties of extractYoutubeId\<close>

lemma startsWith_set: "startsWith s lit \<Longrightarrow> set lit \<subseteq> set s"
  by (metis set_take_subset startsWith_def)

lemma startsWith_append_clash:
  assumes "startsWith (x @ s) lit"
  shows "take (length x) lit = take (length lit) x"
proof -
  have "take (length x) lit = take (length x) (take (length lit) (x @ s))"
    using assms by (simp add: startsWith_def)
  also have "\<dots> = take (min (length x) (length lit)) x"
    by (simp add: take_take min_def)
  also have "\<dots> = take (length lit) x"
    by (simp add: min_def)
  finally show ?thesis .
qed

lemma literalThenId_requires: "literalThenId lit x \<noteq> None \<Longrightarrow> startsWith x lit"
  by (simp add: literalThenId_def split: if_splits)

lemma watchWithParams_requires:
  "watchWithParams x \<noteq> None \<Longrightarrow> startsWith x (js ''youtube.com/watch?'')"
  by (simp add: watchWithParams_def split: if_splits)

lemma search_step: "p (c # cs) = None \<Longrightarrow> search p (c # cs) = search p cs"
  by simp

lemma search_hit: "p x = Some m \<Longrightarrow> search p x = Some m"
  by (cases x) simp_all

lemma search_skip_concrete:
  assumes req: "\<And>x. p x \<noteq> None \<Longrightarrow> startsWith x lit"
      and "noStartWithin lit C"
  shows "search p (C @ s) = search p s"
  using assms(2)
proof (induction C)
  case Nil
  then show ?case by simp
next
  case (Cons c cs)
  have "p ((c # cs) @ s) = None"
  proof (rule ccontr)
    assume "p ((c # cs) @ s) \<noteq> None"
    then have "startsWith ((c # cs) @ s) lit" by (rule req)
    then have "take (length (c # cs)) lit = take (length lit) (c # cs)"
      by (rule startsWith_append_clash)
    then show False using Cons.prems by simp
  qed
  then show ?case using Cons by simp
qed

lemma search_skip_head:
  assumes req: "\<And>x. p x \<noteq> None \<Longrightarrow> startsWith x (l # lit)"
      and "l \<notin> set pre"
  shows "search p (pre @ s) = search p s"
  using assms(2)
proof (induction pre)
  case Nil
  then show ?case by simp
next
  case (Cons c cs)
  have "p ((c # cs) @ s) = None"
  proof (rule ccontr)
    assume "p ((c # cs) @ s) \<noteq> None"
    then have "startsWith ((c # cs) @ s) (l # lit)" by (rule req)
    then have "c = l" by (simp add: startsWith_def)
    then show False using Cons.prems by simp
  qed
  then show ?case using Cons by simp
qed

lemma search_no_char:
  assumes req: "\<And>x. p x \<noteq> None \<Longrightarrow> startsWith x lit"
      and "d \<in> set lit" and "d \<notin> set s"
  shows "search p s = None"
  using assms(3)
proof (induction s)
  case Nil
  have "p [] = None"
  proof (rule ccontr)
    assume "p [] \<noteq> None"
    then have "set lit \<subseteq> set []" using req startsWith_set by blast
    then show False using assms(2) by simp
  qed
  then show ?case by simp
next
  case (Cons c cs)
  have "p (c # cs) = None"
  proof (rule ccontr)
    assume "p (c # cs) \<noteq> None"
    then have "set lit \<subseteq> set (c # cs)" using req startsWith_set by blast
    then show False using assms(2) Cons.prems by blast
  qed
  then show ?case using Cons by simp
qed

lemma capture11_id:
  assumes "length vid = 11" and "list_all idChar vid"
  shows "capture11 (vid @ rest) = Some vid"
  using assms by (simp add: capture11_def)

lemma literalThenId_append: "literalThenId (a @ b) (a @ r) = literalThenId b r"
  by (simp add: literalThenId_def startsWith_def)

lemma literalThenId_self: "literalThenId lit (lit @ r) = capture11 r"
  by (simp add: literalThenId_def startsWith_def)

lemma idChar_not_dot: "list_all idChar vid \<Longrightarrow> 46 \<notin> set vid"
  by (auto simp: list_all_iff idChar_def)

lemma idChar_not_equals: "list_all idChar vid \<Longrightarrow> 61 \<notin> set vid"
  by (auto simp: list_all_iff idChar_def)

text \<open>The literals, each with its first letter and a dot.\<close>

lemma literal_heads:
  "js ''youtube.com/watch?v='' = 121 # js ''outube.com/watch?v=''"
  "js ''youtube.com/watch?'' = 121 # js ''outube.com/watch?''"
  "js ''youtu.be/'' = 121 # js ''outu.be/''"
  "js ''youtube.com/embed/'' = 121 # js ''outube.com/embed/''"
  "js ''youtube.com/v/'' = 121 # js ''outube.com/v/''"
  "js ''youtube.com/shorts/'' = 121 # js ''outube.com/shorts/''"
  "js ''youtube.com/live/'' = 121 # js ''outube.com/live/''"
  by (simp_all add: js_literals)

lemma literal_dots:
  "46 \<in> set (js ''youtube.com/watch?v='')"
  "46 \<in> set (js ''youtube.com/watch?'')"
  "46 \<in> set (js ''youtu.be/'')"
  "46 \<in> set (js ''youtube.com/embed/'')"
  "46 \<in> set (js ''youtube.com/v/'')"
  "46 \<in> set (js ''youtube.com/shorts/'')"
  "46 \<in> set (js ''youtube.com/live/'')"
  by (simp_all add: js_literals)


lemma literals_apart:
  "noStartWithin (js ''youtube.com/watch?v='') (js ''outube.com/watch?'')"
  "noStartWithin (js ''youtube.com/watch?v='') (js ''youtu.be/'')"
  "noStartWithin (js ''youtube.com/watch?'') (js ''youtu.be/'')"
  "noStartWithin (js ''youtube.com/watch?v='') (js ''youtube.com/embed/'')"
  "noStartWithin (js ''youtube.com/watch?'') (js ''youtube.com/embed/'')"
  "noStartWithin (js ''youtu.be/'') (js ''youtube.com/embed/'')"
  "noStartWithin (js ''youtube.com/watch?v='') (js ''youtube.com/v/'')"
  "noStartWithin (js ''youtube.com/watch?'') (js ''youtube.com/v/'')"
  "noStartWithin (js ''youtu.be/'') (js ''youtube.com/v/'')"
  "noStartWithin (js ''youtube.com/embed/'') (js ''youtube.com/v/'')"
  "noStartWithin (js ''youtube.com/watch?v='') (js ''youtube.com/shorts/'')"
  "noStartWithin (js ''youtube.com/watch?'') (js ''youtube.com/shorts/'')"
  "noStartWithin (js ''youtu.be/'') (js ''youtube.com/shorts/'')"
  "noStartWithin (js ''youtube.com/embed/'') (js ''youtube.com/shorts/'')"
  "noStartWithin (js ''youtube.com/v/'') (js ''youtube.com/shorts/'')"
  "noStartWithin (js ''youtube.com/watch?v='') (js ''youtube.com/live/'')"
  "noStartWithin (js ''youtube.com/watch?'') (js ''youtube.com/live/'')"
  "noStartWithin (js ''youtu.be/'') (js ''youtube.com/live/'')"
  "noStartWithin (js ''youtube.com/embed/'') (js ''youtube.com/live/'')"
  "noStartWithin (js ''youtube.com/v/'') (js ''youtube.com/live/'')"
  "noStartWithin (js ''youtube.com/shorts/'') (js ''youtube.com/live/'')"
  by (simp_all add: js_literals)

text \<open>A literal pattern finds the identifier that follows its literal.\<close>

lemma search_finds:
  assumes "lit = 121 # lit'" and "121 \<notin> set pre"
      and "length vid = 11" and "list_all idChar vid"
  shows "search (literalThenId lit) (pre @ lit @ vid @ rest) = Some vid"
proof -
  have "search (literalThenId lit) (pre @ lit @ vid @ rest)
          = search (literalThenId lit) (lit @ vid @ rest)"
    using literalThenId_requires [of lit] assms(1,2)
    by (intro search_skip_head [of "literalThenId lit" 121 lit']) simp_all
  also have "\<dots> = Some vid"
    by (intro search_hit) (simp add: literalThenId_self capture11_id [OF assms(3,4)])
  finally show ?thesis .
qed

text \<open>A pattern whose literal starts elsewhere finds nothing.\<close>

lemma search_misses:
  assumes req: "\<And>x. p x \<noteq> None \<Longrightarrow> startsWith x lit"
      and "lit = 121 # lit'" and "46 \<in> set lit"
      and "noStartWithin lit other"
      and "121 \<notin> set pre" and "46 \<notin> set tail"
  shows "search p (pre @ other @ tail) = None"
proof -
  have "search p (pre @ other @ tail) = search p (other @ tail)"
    using req assms(2,5) by (intro search_skip_head [of p 121 lit']) simp_all
  also have "\<dots> = search p tail"
    using req assms(4) by (rule search_skip_concrete)
  also have "\<dots> = None"
    using req assms(3,6) by (rule search_no_char)
  finally show ?thesis .
qed

lemma firstMatch_miss: "search p url = None \<Longrightarrow> firstMatch (p # ps) url = firstMatch ps url"
  by simp

lemma firstMatch_hit: "search p url = Some m \<Longrightarrow> m \<noteq> [] \<Longrightarrow> firstMatch (p # ps) url = Some m"
  by simp

lemma id_nonempty: "length vid = 11 \<Longrightarrow> vid \<noteq> []"
  by auto

lemma standard_watch_form:
  assumes "121 \<notin> set pre" and "length vid = 11" and "list_all idChar vid"
  shows "extractYoutubeId (pre @ js ''youtube.com/watch?v='' @ vid @ rest) = Some vid"
  unfolding extractYoutubeId_def patterns_def
  by (intro firstMatch_hit search_finds [OF literal_heads(1) assms] id_nonempty [OF assms(2)])

lemma short_link_form:
  assumes "121 \<notin> set pre" and "length vid = 11" and "list_all idChar vid" and "46 \<notin> set rest"
  shows "extractYoutubeId (pre @ js ''youtu.be/'' @ vid @ rest) = Some vid"
proof -
  have t: "46 \<notin> set (vid @ rest)"
    using idChar_not_dot [OF assms(3)] assms(4) by simp
  have m1: "search (literalThenId (js ''youtube.com/watch?v='')) (pre @ js ''youtu.be/'' @ vid @ rest) = None"
    using search_misses [OF literalThenId_requires literal_heads(1) literal_dots(1) literals_apart(2) assms(1) t]
    by simp
  have m2: "search watchWithParams (pre @ js ''youtu.be/'' @ vid @ rest) = None"
    using search_misses [OF watchWithParams_requires literal_heads(2) literal_dots(2) literals_apart(3) assms(1) t]
    by simp
  have h: "search (literalThenId (js ''youtu.be/'')) (pre @ js ''youtu.be/'' @ vid @ rest) = Some vid"
    by (rule search_finds [OF literal_heads(3) assms(1,2,3)])
  show ?thesis
    unfolding extractYoutubeId_def patterns_def
    by (simp only: firstMatch_miss [OF m1] firstMatch_miss [OF m2]
          firstMatch_hit [OF h id_nonempty [OF assms(2)]])
qed


lemma embed_form:
  assumes "121 \<notin> set pre" and "length vid = 11" and "list_all idChar vid" and "46 \<notin> set rest"
  shows "extractYoutubeId (pre @ js ''youtube.com/embed/'' @ vid @ rest) = Some vid"
proof -
  have t: "46 \<notin> set (vid @ rest)"
    using idChar_not_dot [OF assms(3)] assms(4) by simp
  have m1: "search (literalThenId (js ''youtube.com/watch?v='')) (pre @ js ''youtube.com/embed/'' @ vid @ rest) = None"
    using search_misses [OF literalThenId_requires literal_heads(1) literal_dots(1) literals_apart(4) assms(1) t]
    by simp
  have m2: "search watchWithParams (pre @ js ''youtube.com/embed/'' @ vid @ rest) = None"
    using search_misses [OF watchWithParams_requires literal_heads(2) literal_dots(2) literals_apart(5) assms(1) t]
    by simp
  have m3: "search (literalThenId (js ''youtu.be/'')) (pre @ js ''youtube.com/embed/'' @ vid @ rest) = None"
    using search_misses [OF literalThenId_requires literal_heads(3) literal_dots(3) literals_apart(6) assms(1) t]
    by simp
  have h: "search (literalThenId (js ''youtube.com/embed/'')) (pre @ js ''youtube.com/embed/'' @ vid @ rest) = Some vid"
    by (rule search_finds [OF literal_heads(4) assms(1,2,3)])
  show ?thesis
    unfolding extractYoutubeId_def patterns_def
    by (simp only: firstMatch_miss [OF m1] firstMatch_miss [OF m2] firstMatch_miss [OF m3]
          firstMatch_hit [OF h id_nonempty [OF assms(2)]])
qed

lemma legacy_embed_form:
  assumes "121 \<notin> set pre" and "length vid = 11" and "list_all idChar vid" and "46 \<notin> set rest"
  shows "extractYoutubeId (pre @ js ''youtube.com/v/'' @ vid @ rest) = Some vid"
proof -
  have t: "46 \<notin> set (vid @ rest)"
    using idChar_not_dot [OF assms(3)] assms(4) by simp
  have m1: "search (literalThenId (js ''youtube.com/watch?v='')) (pre @ js ''youtube.com/v/'' @ vid @ rest) = None"
    using search_misses [OF literalThenId_requires literal_heads(1) literal_dots(1) literals_apart(7) assms(1) t]
    by simp
  have m2: "search watchWithParams (pre @ js ''youtube.com/v/'' @ vid @ rest) = None"
    using search_misses [OF watchWithParams_requires literal_heads(2) literal_dots(2) literals_apart(8) assms(1) t]
    by simp
  have m3: "search (literalThenId (js ''youtu.be/'')) (pre @ js ''youtube.com/v/'' @ vid @ rest) = None"
    using search_misses [OF literalThenId_requires literal_heads(3) literal_dots(3) literals_apart(9) assms(1) t]
    by simp
  have m4: "search (literalThenId (js ''youtube.com/embed/'')) (pre @ js ''youtube.com/v/'' @ vid @ rest) = None"
    using search_misses [OF literalThenId_requires literal_heads(4) literal_dots(4) literals_apart(10) assms(1) t]
    by simp
  have h: "search (literalThenId (js ''youtube.com/v/'')) (pre @ js ''youtube.com/v/'' @ vid @ rest) = Some vid"
    by (rule search_finds [OF literal_heads(5) assms(1,2,3)])
  show ?thesis
    unfolding extractYoutubeId_def patterns_def
    by (simp only: firstMatch_miss [OF m1] firstMatch_miss [OF m2] firstMatch_miss [OF m3] firstMatch_miss [OF m4]
          firstMatch_hit [OF h id_nonempty [OF assms(2)]])
qed

lemma shorts_form:
  assumes "121 \<notin> set pre" and "length vid = 11" and "list_all idChar vid" and "46 \<notin> set rest"
  shows "extractYoutubeId (pre @ js ''youtube.com/shorts/'' @ vid @ rest) = Some vid"
proof -
  have t: "46 \<notin> set (vid @ rest)"
    using idChar_not_dot [OF assms(3)] assms(4) by simp
  have m1: "search (literalThenId (js ''youtube.com/watch?v='')) (pre @ js ''youtube.com/shorts/'' @ vid @ rest) = None"
    using search_misses [OF literalThenId_requires literal_heads(1) literal_dots(1) literals_apart(11) assms(1) t]
    by simp
  have m2: "search watchWithParams (pre @ js ''youtube.com/shorts/'' @ vid @ rest) = None"
    using search_misses [OF watchWithParams_requires literal_heads(2) literal_dots(2) literals_apart(12) assms(1) t]
    by simp
  have m3: "search (literalThenId (js ''youtu.be/'')) (pre @ js ''youtube.com/shorts/'' @ vid @ rest) = None"
    using search_misses [OF literalThenId_requires literal_heads(3) literal_dots(3) literals_apart(13) assms(1) t]
    by simp
  have m4: "search (literalThenId (js ''youtube.com/embed/'')) (pre @ js ''youtube.com/shorts/'' @ vid @ rest) = None"
    using search_misses [OF literalThenId_requires literal_heads(4) literal_dots(4) literals_apart(14) assms(1) t]
    by simp
  have m5: "search (literalThenId (js ''youtube.com/v/'')) (pre @ js ''youtube.com/shorts/'' @ vid @ rest) = None"
    using search_misses [OF literalThenId_requires literal_heads(5) literal_dots(5) literals_apart(15) assms(1) t]
    by simp
  have h: "search (literalThenId (js ''youtube.com/shorts/'')) (pre @ js ''youtube.com/shorts/'' @ vid @ rest) = Some vid"
    by (rule search_finds [OF literal_heads(6) assms(1,2,3)])
  show ?thesis
    unfolding extractYoutubeId_def patterns_def
    by (simp only: firstMatch_miss [OF m1] firstMatch_miss [OF m2] firstMatch_miss [OF m3] firstMatch_miss [OF m4] firstMatch_miss [OF m5]
          firstMatch_hit [OF h id_nonempty [OF assms(2)]])
qed

lemma live_form:
  assumes "121 \<notin> set pre" and "length vid = 11" and "list_all idChar vid" and "46 \<notin> set rest"
  shows "extractYoutubeId (pre @ js ''youtube.com/live/'' @ vid @ rest) = Some vid"
proof -
  have t: "46 \<notin> set (vid @ rest)"
    using idChar_not_dot [OF assms(3)] assms(4) by simp
  have m1: "search (literalThenId (js ''youtube.com/watch?v='')) (pre @ js ''youtube.com/live/'' @ vid @ rest) = None"
    using search_misses [OF literalThenId_requires literal_heads(1) literal_dots(1) literals_apart(16) assms(1) t]
    by simp
  have m2: "search watchWithParams (pre @ js ''youtube.com/live/'' @ vid @ rest) = None"
    using search_misses [OF watchWithParams_requires literal_heads(2) literal_dots(2) literals_apart(17) assms(1) t]
    by simp
  have m3: "search (literalThenId (js ''youtu.be/'')) (pre @ js ''youtube.com/live/'' @ vid @ rest) = None"
    using search_misses [OF literalThenId_requires literal_heads(3) literal_dots(3) literals_apart(18) assms(1) t]
    by simp
  have m4: "search (literalThenId (js ''youtube.com/embed/'')) (pre @ js ''youtube.com/live/'' @ vid @ rest) = None"
    using search_misses [OF literalThenId_requires literal_heads(4) literal_dots(4) literals_apart(19) assms(1) t]
    by simp
  have m5: "search (literalThenId (js ''youtube.com/v/'')) (pre @ js ''youtube.com/live/'' @ vid @ rest) = None"
    using search_misses [OF literalThenId_requires literal_heads(5) literal_dots(5) literals_apart(20) assms(1) t]
    by simp
  have m6: "search (literalThenId (js ''youtube.com/shorts/'')) (pre @ js ''youtube.com/live/'' @ vid @ rest) = None"
    using search_misses [OF literalThenId_requires literal_heads(6) literal_dots(6) literals_apart(21) assms(1) t]
    by simp
  have h: "search (literalThenId (js ''youtube.com/live/'')) (pre @ js ''youtube.com/live/'' @ vid @ rest) = Some vid"
    by (rule search_finds [OF literal_heads(7) assms(1,2,3)])
  show ?thesis
    unfolding extractYoutubeId_def patterns_def
    by (simp only: firstMatch_miss [OF m1] firstMatch_miss [OF m2] firstMatch_miss [OF m3] firstMatch_miss [OF m4] firstMatch_miss [OF m5] firstMatch_miss [OF m6]
          firstMatch_hit [OF h id_nonempty [OF assms(2)]])
qed

text \<open>The greedy \<^verbatim>\<open>.*\<close> keeps the last position at which its continuation matches.\<close>

lemma greedyDotStar_none:
  assumes "\<And>ys zs. s = ys @ zs \<Longrightarrow> k zs = None"
  shows "greedyDotStar k s = None"
  using assms
proof (induction s)
  case Nil
  then show ?case by simp
next
  case (Cons c cs)
  have "greedyDotStar k cs = None"
  proof (rule Cons.IH)
    fix ys zs assume "cs = ys @ zs"
    then have "c # cs = (c # ys) @ zs" by simp
    then show "k zs = None" by (rule Cons.prems)
  qed
  moreover have "k (c # cs) = None"
    using Cons.prems [of "[]" "c # cs"] by simp
  ultimately show ?case by simp
qed

lemma greedyDotStar_later:
  assumes "\<forall>c \<in> set xs. \<not> lineTerminator c" and "greedyDotStar k ys = Some m"
  shows "greedyDotStar k (xs @ ys) = Some m"
  using assms by (induction xs) simp_all

lemma no_v_equals_in_id:
  assumes "list_all idChar zs"
  shows "literalThenId (js ''v='') zs = None"
proof -
  have "61 \<in> set (js ''v='')" by (simp add: js_literals)
  moreover have "61 \<notin> set zs" by (rule idChar_not_equals [OF assms])
  ultimately have "\<not> startsWith zs (js ''v='')"
    using startsWith_set by blast
  then show ?thesis by (simp add: literalThenId_def)
qed

lemma greedy_at_v:
  assumes "length vid = 11" and "list_all idChar vid"
  shows "greedyDotStar (literalThenId (js ''v='')) (js ''v='' @ vid) = Some vid"
proof -
  have inner: "greedyDotStar (literalThenId (js ''v='')) vid = None"
  proof (rule greedyDotStar_none)
    fix ys zs assume "vid = ys @ zs"
    then have "list_all idChar zs" using assms(2) by simp
    then show "literalThenId (js ''v='') zs = None" by (rule no_v_equals_in_id)
  qed
  have eq: "literalThenId (js ''v='') (61 # vid) = None"
    by (simp add: literalThenId_def startsWith_def js_literals)
  have mid: "greedyDotStar (literalThenId (js ''v='')) (61 # vid) = None"
    using inner eq by simp
  have hit: "literalThenId (js ''v='') (js ''v='' @ vid) = Some vid"
    using capture11_id [OF assms, of "[]"] by (simp add: literalThenId_self)
  have "js ''v='' @ vid = 118 # 61 # vid"
    by (simp add: js_literals)
  then show ?thesis
    using mid hit by (simp add: lineTerminator_def)
qed

lemma watch_with_params_form:
  assumes "121 \<notin> set pre" and "length vid = 11" and "list_all idChar vid"
      and "46 \<notin> set params" and "\<forall>c \<in> set params. \<not> lineTerminator c"
      and "\<not> startsWith params (js ''v='')"
  shows "extractYoutubeId (pre @ js ''youtube.com/watch?'' @ params @ js ''&v='' @ vid) = Some vid"
proof -
  let ?X = "params @ js ''&v='' @ vid"
  have amp: "js ''&v='' = 38 # js ''v=''"
    by (simp add: js_literals)
  have dot: "46 \<notin> set ?X"
    using idChar_not_dot [OF assms(3)] assms(4) by (simp add: js_literals)
  have nostart: "\<not> startsWith ?X (js ''v='')"
  proof (cases params)
    case Nil
    then show ?thesis by (simp add: startsWith_def js_literals)
  next
    case (Cons c cs)
    then show ?thesis
      using assms(6) by (cases cs) (simp_all add: startsWith_def js_literals)
  qed
  have split1: "js ''youtube.com/watch?v='' = js ''youtube.com/watch?'' @ js ''v=''"
    by (simp add: js_literals)
  have at_watch: "literalThenId (js ''youtube.com/watch?v='') (js ''youtube.com/watch?'' @ ?X) = None"
    using nostart by (simp add: split1 literalThenId_append) (simp add: literalThenId_def)
  have "search (literalThenId (js ''youtube.com/watch?v='')) (pre @ js ''youtube.com/watch?'' @ ?X)
          = search (literalThenId (js ''youtube.com/watch?v='')) (js ''youtube.com/watch?'' @ ?X)"
    using literalThenId_requires [of "js ''youtube.com/watch?v=''"] assms(1)
    by (intro search_skip_head [of _ 121 "js ''outube.com/watch?v=''"]) (simp_all add: literal_heads(1))
  also have "\<dots> = search (literalThenId (js ''youtube.com/watch?v='')) (js ''outube.com/watch?'' @ ?X)"
    using at_watch by (simp add: literal_heads(2))
  also have "\<dots> = search (literalThenId (js ''youtube.com/watch?v='')) ?X"
    using literalThenId_requires literals_apart(1) by (rule search_skip_concrete)
  also have "\<dots> = None"
    using literalThenId_requires literal_dots(1) dot by (rule search_no_char)
  finally have m1: "search (literalThenId (js ''youtube.com/watch?v=''))
                      (pre @ js ''youtube.com/watch?'' @ ?X) = None" .
  have g: "greedyDotStar (literalThenId (js ''v='')) ?X = Some vid"
  proof -
    have "\<forall>c \<in> set (params @ [38]). \<not> lineTerminator c"
      using assms(5) by (simp add: lineTerminator_def)
    then have "greedyDotStar (literalThenId (js ''v='')) ((params @ [38]) @ (js ''v='' @ vid)) = Some vid"
      using greedy_at_v [OF assms(2,3)] by (rule greedyDotStar_later)
    then show ?thesis by (simp add: amp)
  qed
  have w: "watchWithParams (js ''youtube.com/watch?'' @ ?X) = Some vid"
    using g by (simp add: watchWithParams_def startsWith_def)
  have "search watchWithParams (pre @ js ''youtube.com/watch?'' @ ?X)
          = search watchWithParams (js ''youtube.com/watch?'' @ ?X)"
    using watchWithParams_requires assms(1)
    by (intro search_skip_head [of _ 121 "js ''outube.com/watch?''"]) (simp_all add: literal_heads(2))
  also have "\<dots> = Some vid"
    using w by (rule search_hit)
  finally have h: "search watchWithParams (pre @ js ''youtube.com/watch?'' @ ?X) = Some vid" .
  show ?thesis
    unfolding extractYoutubeId_def patterns_def
    by (simp only: firstMatch_miss [OF m1] firstMatch_hit [OF h id_nonempty [OF assms(2)]])
qed

text \<open>What extraction returns is eleven identifier characters; it returns nothing exactly when no pattern matches.\<close>

lemma capture11_Some: "capture11 s = Some m \<Longrightarrow> length m = 11 \<and> list_all idChar m"
  by (auto simp: capture11_def split: if_splits)

lemma literalThenId_Some: "literalThenId lit s = Some m \<Longrightarrow> length m = 11 \<and> list_all idChar m"
  using capture11_Some by (auto simp: literalThenId_def split: if_splits)

lemma greedyDotStar_Some: "greedyDotStar k s = Some m \<Longrightarrow> \<exists>x. k x = Some m"
  by (induction s) (auto split: if_splits option.splits)

lemma watchWithParams_Some: "watchWithParams s = Some m \<Longrightarrow> length m = 11 \<and> list_all idChar m"
  using greedyDotStar_Some literalThenId_Some
  by (fastforce simp: watchWithParams_def split: if_splits)

lemma search_Some: "search p s = Some m \<Longrightarrow> \<exists>x. p x = Some m"
  by (induction s) (auto split: option.splits)

lemma pattern_match_shape:
  assumes "p \<in> set patterns" and "search p url = Some m"
  shows "length m = 11 \<and> list_all idChar m"
proof -
  obtain x where "p x = Some m"
    using search_Some [OF assms(2)] by blast
  then show ?thesis
    using assms(1) literalThenId_Some watchWithParams_Some
    by (auto simp: patterns_def)
qed

lemma firstMatch_None_iff:
  assumes "\<And>p m. p \<in> set ps \<Longrightarrow> search p url = Some m \<Longrightarrow> m \<noteq> []"
  shows "firstMatch ps url = None \<longleftrightarrow> (\<forall>p \<in> set ps. search p url = None)"
  using assms by (induction ps) (auto split: option.splits)

lemma extractYoutubeId_None_iff:
  "extractYoutubeId url = None \<longleftrightarrow> (\<forall>p \<in> set patterns. search p url = None)"
  unfolding extractYoutubeId_def
proof (rule firstMatch_None_iff)
  fix p m assume "p \<in> set patterns" and "search p url = Some m"
  then have "length m = 11" using pattern_match_shape by blast
  then show "m \<noteq> []" by auto
qed

lemma seven_forms_same_identifier:
  assumes "length vid = 11" and "list_all idChar vid"
  shows "extractYoutubeId (js ''https://www.youtube.com/watch?v='' @ vid) = Some vid"
    and "extractYoutubeId (js ''https://www.youtube.com/watch?feature=share&v='' @ vid) = Some vid"
    and "extractYoutubeId (js ''https://youtu.be/'' @ vid) = Some vid"
    and "extractYoutubeId (js ''https://www.youtube.com/embed/'' @ vid) = Some vid"
    and "extractYoutubeId (js ''https://www.youtube.com/v/'' @ vid) = Some vid"
    and "extractYoutubeId (js ''https://www.youtube.com/shorts/'' @ vid) = Some vid"
    and "extractYoutubeId (js ''https://www.youtube.com/live/'' @ vid) = Some vid"
proof -
  have w: "121 \<notin> set (js ''https://www.'')" and s: "121 \<notin> set (js ''https://'')"
    by (simp_all add: js_literals)
  have e: "46 \<notin> set []" by simp
  have a: "\<And>x y r. js x @ js y @ r = js (x @ y) @ r"
    by (simp add: js_def)
  show "extractYoutubeId (js ''https://www.youtube.com/watch?v='' @ vid) = Some vid"
    using standard_watch_form [OF w assms, of "[]"] by (simp add: a)
  show "extractYoutubeId (js ''https://youtu.be/'' @ vid) = Some vid"
    using short_link_form [OF s assms e] by (simp add: a)
  show "extractYoutubeId (js ''https://www.youtube.com/embed/'' @ vid) = Some vid"
    using embed_form [OF w assms e] by (simp add: a)
  show "extractYoutubeId (js ''https://www.youtube.com/v/'' @ vid) = Some vid"
    using legacy_embed_form [OF w assms e] by (simp add: a)
  show "extractYoutubeId (js ''https://www.youtube.com/shorts/'' @ vid) = Some vid"
    using shorts_form [OF w assms e] by (simp add: a)
  show "extractYoutubeId (js ''https://www.youtube.com/live/'' @ vid) = Some vid"
    using live_form [OF w assms e] by (simp add: a)
  have p: "46 \<notin> set (js ''feature=share'')" "\<forall>c \<in> set (js ''feature=share''). \<not> lineTerminator c"
    "\<not> startsWith (js ''feature=share'') (js ''v='')"
    by (simp_all add: js_literals lineTerminator_def startsWith_def)
  show "extractYoutubeId (js ''https://www.youtube.com/watch?feature=share&v='' @ vid) = Some vid"
    using watch_with_params_form [OF w assms p] by (simp add: a)
qed

text \<open>
  C3. On the seven forms (the form's literal, then the identifier) extraction returns the
  identifier, as the lemmas above show. It does not do so for every watch URL with extra
  query parameters: when a later parameter ends in \<^verbatim>\<open>v=\<close> and has a value of eleven
  identifier characters, the greedy \<^verbatim>\<open>.*\<close> of the second pattern runs to that parameter,
  and its value is returned in place of the identifier of the \<^verbatim>\<open>v\<close> parameter.
\<close>

theorem extractYoutubeId_later_parameter:
  "extractYoutubeId (js ''https://www.youtube.com/watch?app=desktop&v=dQw4w9WgXcQ&prev=9bZkp7q19f0'')
     = Some (js ''9bZkp7q19f0'')"
  by (simp add: extractYoutubeId_def patterns_def literalThenId_def watchWithParams_def
      startsWith_def capture11_def idChar_def lineTerminator_def js_literals)


end
